theory Spec2Isabelle
  imports Main "HOL-Library.AList"
begin

section \<open>Text, integers as text, exceptions\<close>

text \<open>
  A Python \<open>str\<close> is a sequence of Unicode code points: \<open>len\<close> counts code points and
  \<open>startswith\<close> compares them. A text is therefore a list of code points; \<open>asc\<close>
  embeds an ASCII literal.
\<close>

type_synonym str = "nat list"

definition asc :: "string \<Rightarrow> str" where
  "asc s = map of_char s"

text \<open>\<open>str(i)\<close> for a Python \<open>int\<close>: a minus sign for negatives, then the decimal digits.\<close>

fun digits :: "nat \<Rightarrow> str" where
  "digits n = (if n < 10 then [48 + n] else digits (n div 10) @ [48 + n mod 10])"

declare digits.simps [simp del]

definition str_int :: "int \<Rightarrow> str" where
  "str_int i = (if i < 0 then 45 # digits (nat (- i)) else digits (nat i))"

text \<open>
  The exception classes the program names, the built-in ones its own expressions raise,
  and \<open>OtherException\<close> for every other subclass of \<open>Exception\<close> (network, provider, ...).
  An exception value carries its class and its \<open>str(e)\<close>.
\<close>

datatype exn_class =
    PhoneNumberInvalidError
  | FloodWaitError int
  | PhoneCodeInvalidError
  | PhoneCodeExpiredError
  | SessionPasswordNeededError
  | PasswordHashInvalidError
  | KeyError
  | IndexError
  | ValueError
  | OtherException

datatype exn = Exn (exn_cls: exn_class) (exn_str: str)

datatype 'a res = Ok 'a | Raise exn

section \<open>DatabaseManager\<close>

text \<open>
  The three tables, as lists of rows in insertion (rowid) order. \<open>numbers_seq\<close> and
  \<open>sessions_seq\<close> are the AUTOINCREMENT counters. Timestamps are abstract integers.
  The column \<open>session_data\<close> is never written and is left out. The SQL statements are
  taken to succeed.
\<close>

record user_row =
  u_user_id :: int
  u_username :: "str option"
  u_first_name :: "str option"
  u_last_name :: "str option"
  u_created_at :: int
  u_is_active :: bool

record number_row =
  n_id :: int
  n_user_id :: int
  n_phone_number :: str
  n_is_authenticated :: bool
  n_added_at :: int
  n_last_login :: "int option"
  n_status :: str

record session_row =
  s_id :: int
  s_user_id :: int
  s_phone_number :: str
  s_session_file_path :: str
  s_created_at :: int
  s_is_active :: bool

record database =
  users :: "user_row list"
  numbers :: "number_row list"
  numbers_seq :: int
  sessions :: "session_row list"
  sessions_seq :: int

definition init_database :: database where
  "init_database = \<lparr>users = [], numbers = [], numbers_seq = 0, sessions = [], sessions_seq = 0\<rparr>"

text \<open>\<open>INSERT OR REPLACE\<close> on the primary key \<open>user_id\<close>: a row with that key is replaced.\<close>

definition add_user ::
  "int \<Rightarrow> int \<Rightarrow> str option \<Rightarrow> str option \<Rightarrow> str option \<Rightarrow> database \<Rightarrow> database" where
  "add_user now user_id username first_name last_name d =
     d\<lparr>users := filter (\<lambda>r. u_user_id r \<noteq> user_id) (users d) @
          [\<lparr>u_user_id = user_id, u_username = username, u_first_name = first_name,
            u_last_name = last_name, u_created_at = now, u_is_active = True\<rparr>]\<rparr>"

text \<open>A new row with the column defaults; returns \<open>lastrowid\<close>.\<close>

definition add_phone_number :: "int \<Rightarrow> int \<Rightarrow> str \<Rightarrow> database \<Rightarrow> int \<times> database" where
  "add_phone_number now user_id phone_number d =
     (let i = numbers_seq d + 1 in
      (i, d\<lparr>numbers := numbers d @
               [\<lparr>n_id = i, n_user_id = user_id, n_phone_number = phone_number,
                 n_is_authenticated = False, n_added_at = now, n_last_login = None,
                 n_status = asc ''pending''\<rparr>],
             numbers_seq := i\<rparr>))"

text \<open>
  \<open>ORDER BY added_at DESC\<close>; rows with equal timestamps are kept in rowid order here
  (SQLite does not fix their order).
\<close>

definition get_user_numbers :: "int \<Rightarrow> database \<Rightarrow> number_row list" where
  "get_user_numbers user_id d =
     sort_key (\<lambda>r. - n_added_at r) (filter (\<lambda>r. n_user_id r = user_id) (numbers d))"

definition update_number_status :: "int \<Rightarrow> int \<Rightarrow> str \<Rightarrow> bool \<Rightarrow> database \<Rightarrow> database" where
  "update_number_status now number_id status is_authenticated d =
     d\<lparr>numbers := map (\<lambda>r. if n_id r = number_id
                            then r\<lparr>n_status := status, n_is_authenticated := is_authenticated,
                                  n_last_login := Some now\<rparr>
                            else r) (numbers d)\<rparr>"

text \<open>
  \<open>INSERT OR REPLACE\<close> into a table whose only key is the AUTOINCREMENT \<open>id\<close>, which the
  statement does not give: no conflict can arise, a row is appended.
\<close>

definition save_session :: "int \<Rightarrow> int \<Rightarrow> str \<Rightarrow> str \<Rightarrow> database \<Rightarrow> database" where
  "save_session now user_id phone_number session_file_path d =
     (let i = sessions_seq d + 1 in
      d\<lparr>sessions := sessions d @
           [\<lparr>s_id = i, s_user_id = user_id, s_phone_number = phone_number,
             s_session_file_path = session_file_path, s_created_at = now, s_is_active = True\<rparr>],
        sessions_seq := i\<rparr>)"

text \<open>\<open>fetchone()\<close> of the matching rows, or 0.\<close>

definition get_number_id :: "int \<Rightarrow> str \<Rightarrow> database \<Rightarrow> int" where
  "get_number_id user_id phone_number d =
     (case find (\<lambda>r. n_user_id r = user_id \<and> n_phone_number r = phone_number) (numbers d) of
        Some r \<Rightarrow> n_id r
      | None \<Rightarrow> 0)"

section \<open>The bot's state and its environment\<close>

datatype client = TelegramClient str

record pending_auth =
  pa_client :: client
  pa_phone_number :: str
  pa_phone_code_hash :: str
  pa_session_name :: str

text \<open>The three values ever stored in \<open>user_states\<close>; a user without an entry is idle.\<close>

datatype conv_state = waiting_phone | waiting_code | waiting_2fa

datatype reply_markup =
    ReplyKeyboard "str list list"
  | InlineKeyboard "(str \<times> str) list list"

datatype api_call =
    SendMessage int str "reply_markup option"
  | EditMessageText int int str "reply_markup option"
  | AnswerCallbackQuery str str

datatype log_level = INFO | ERROR

text \<open>The calls made on a \<open>TelegramClient\<close>, with their arguments.\<close>

datatype tg_call =
    TgConnect client
  | TgIsUserAuthorized client
  | TgDisconnect client
  | TgSendCodeRequest client str
  | TgSignInCode client str str str
  | TgSignInPassword client str

text \<open>
  \<open>TelegramBot\<close> and its \<open>TelegramAccountManager\<close> share one \<open>DatabaseManager\<close>; the
  state is one record. Python dictionaries are association lists updated in place
  (\<open>AList.update\<close> for \<open>d[k] = v\<close>, \<open>AList.delete\<close> for \<open>del d[k]\<close>, \<open>map_of\<close> for
  lookup). \<open>outbox\<close> holds the requests posted to the Bot API, in order,
  \<open>client_calls\<close> the calls made on account clients, and \<open>logged\<close> the records
  given to the logger.
\<close>

record bot =
  db :: database
  pending_authentications :: "(int \<times> pending_auth) list"
  active_clients :: "(str \<times> client) list"
  user_states :: "(int \<times> conv_state) list"
  offset :: int
  outbox :: "api_call list"
  client_calls :: "tg_call list"
  logged :: "(log_level \<times> str) list"

text \<open>
  What the outside world answers while one update is handled: the clock, the outcome of
  the n-th HTTP request to the Bot API, and the outcome of each call to the account
  client. Every call may raise.
\<close>

record env =
  clock :: int
  transport :: "nat \<Rightarrow> unit res"
  tg_connect :: "unit res"
  tg_is_user_authorized :: "bool res"
  tg_disconnect :: "unit res"
  tg_send_code_request :: "str res"
  tg_sign_in_code :: "unit res"
  tg_sign_in_password :: "unit res"

text \<open>
  Library functions the program calls: \<open>md5_hexdigest s\<close> is
  \<open>hashlib.md5(s.encode()).hexdigest()\<close>, \<open>py_int\<close> is the built-in \<open>int\<close> on a string.
\<close>

record lib =
  md5_hexdigest :: "str \<Rightarrow> str"
  py_int :: "str \<Rightarrow> int res"

definition logger :: "log_level \<Rightarrow> str \<Rightarrow> bot \<Rightarrow> bot" where
  "logger lvl msg st = st\<lparr>logged := logged st @ [(lvl, msg)]\<rparr>"

definition called :: "tg_call \<Rightarrow> bot \<Rightarrow> bot" where
  "called c st = st\<lparr>client_calls := client_calls st @ [c]\<rparr>"

section \<open>TelegramAccountManager\<close>

definition session_key :: "int \<Rightarrow> str \<Rightarrow> str" where
  "session_key user_id phone_number = str_int user_id @ asc ''_'' @ phone_number"

definition get_session_name :: "lib \<Rightarrow> int \<Rightarrow> str \<Rightarrow> str" where
  "get_session_name l user_id phone_number =
     asc ''sessions/session_'' @ md5_hexdigest l (session_key user_id phone_number)"

text \<open>The \<open>except\<close> clauses of \<open>send_code\<close>, in order.\<close>

definition send_code_except :: "exn \<Rightarrow> bot \<Rightarrow> (bool \<times> str) \<times> bot" where
  "send_code_except e st =
     (case exn_cls e of
        PhoneNumberInvalidError \<Rightarrow> ((False, asc ''Invalid phone number format''), st)
      | FloodWaitError seconds \<Rightarrow>
          ((False, asc ''Too many attempts. Wait '' @ str_int seconds @ asc '' seconds''), st)
      | _ \<Rightarrow> ((False, asc ''Error: '' @ exn_str e),
               logger ERROR (asc ''Error sending code: '' @ exn_str e) st))"

text \<open>
  \<open>send_code\<close>: the session name, \<open>connect\<close>, \<open>is_user_authorized\<close>, then either
  \<open>disconnect\<close> or \<open>send_code_request\<close> and the registry entry. (\<open>os.makedirs\<close> is
  taken to succeed.)
\<close>

definition send_code :: "lib \<Rightarrow> env \<Rightarrow> int \<Rightarrow> str \<Rightarrow> bot \<Rightarrow> (bool \<times> str) \<times> bot" where
  "send_code l ev user_id phone_number st =
     (let session_name = get_session_name l user_id phone_number;
          client = TelegramClient session_name;
          st1 = called (TgConnect client) st
      in case tg_connect ev of
           Raise e \<Rightarrow> send_code_except e st1
         | Ok _ \<Rightarrow>
            (let st2 = called (TgIsUserAuthorized client) st1 in
             case tg_is_user_authorized ev of
               Raise e \<Rightarrow> send_code_except e st2
             | Ok True \<Rightarrow>
                (let st3 = called (TgDisconnect client) st2 in
                 case tg_disconnect ev of
                   Raise e \<Rightarrow> send_code_except e st3
                 | Ok _ \<Rightarrow> ((True, asc ''Already authenticated''), st3))
             | Ok False \<Rightarrow>
                (let st3 = called (TgSendCodeRequest client phone_number) st2 in
                 case tg_send_code_request ev of
                   Raise e \<Rightarrow> send_code_except e st3
                 | Ok phone_code_hash \<Rightarrow>
                    ((True, asc ''Verification code sent successfully''),
                     logger INFO (asc ''Code sent to '' @ phone_number @ asc '' for user '' @
                                  str_int user_id)
                       (st3\<lparr>pending_authentications :=
                              AList.update user_id
                                \<lparr>pa_client = client, pa_phone_number = phone_number,
                                  pa_phone_code_hash = phone_code_hash,
                                  pa_session_name = session_name\<rparr>
                                (pending_authentications st3)\<rparr>)))))"

text \<open>
  The success path shared by \<open>verify_code\<close> and \<open>verify_2fa_password\<close> up to the removal
  of the pending entry: \<open>save_session\<close>, \<open>update_number_status\<close>, \<open>active_clients\<close>,
  \<open>del pending_authentications[user_id]\<close>.
\<close>

definition store_login :: "env \<Rightarrow> int \<Rightarrow> pending_auth \<Rightarrow> bot \<Rightarrow> bot" where
  "store_login ev user_id auth_data st =
     (let phone_number = pa_phone_number auth_data;
          d1 = save_session (clock ev) user_id phone_number (pa_session_name auth_data) (db st);
          d2 = update_number_status (clock ev) (get_number_id user_id phone_number d1)
                 (asc ''authenticated'') True d1
      in st\<lparr>db := d2,
            active_clients :=
              AList.update (str_int user_id @ asc ''_'' @ phone_number) (pa_client auth_data)
                (active_clients st),
            pending_authentications := AList.delete user_id (pending_authentications st)\<rparr>)"

definition verify_code_except :: "exn \<Rightarrow> bot \<Rightarrow> (bool \<times> str) \<times> bot" where
  "verify_code_except e st =
     (case exn_cls e of
        SessionPasswordNeededError \<Rightarrow> ((False, asc ''2FA_REQUIRED''), st)
      | PhoneCodeInvalidError \<Rightarrow> ((False, asc ''Invalid verification code''), st)
      | PhoneCodeExpiredError \<Rightarrow> ((False, asc ''Verification code expired''), st)
      | _ \<Rightarrow> ((False, asc ''Error: '' @ exn_str e),
               logger ERROR (asc ''Error verifying code: '' @ exn_str e) st))"

text \<open>
  After the pending entry is removed, \<open>verify_code\<close> hands a base64-encoded program str
  to \<open>compile\<close> and \<open>exec\<close> inside \<open>try ... except Exception: pass\<close>. That block reads
  and writes nothing of the state modelled here, so it is an identity step.
\<close>

definition verify_code :: "env \<Rightarrow> int \<Rightarrow> str \<Rightarrow> bot \<Rightarrow> (bool \<times> str) \<times> bot" where
  "verify_code ev user_id code st =
     (case map_of (pending_authentications st) user_id of
        None \<Rightarrow> ((False, asc ''No pending authentication found''), st)
      | Some auth_data \<Rightarrow>
         (let st1 = called (TgSignInCode (pa_client auth_data) (pa_phone_number auth_data) code
                              (pa_phone_code_hash auth_data)) st in
          case tg_sign_in_code ev of
            Ok _ \<Rightarrow>
              ((True, asc ''Authentication successful!''),
               logger INFO (asc ''Successfully authenticated '' @ pa_phone_number auth_data @
                            asc '' for user '' @ str_int user_id)
                 (store_login ev user_id auth_data st1))
          | Raise e \<Rightarrow> verify_code_except e st1))"

definition verify_2fa_except :: "exn \<Rightarrow> bot \<Rightarrow> (bool \<times> str) \<times> bot" where
  "verify_2fa_except e st =
     (case exn_cls e of
        PasswordHashInvalidError \<Rightarrow> ((False, asc ''Invalid 2FA password''), st)
      | _ \<Rightarrow> ((False, asc ''Error: '' @ exn_str e),
               logger ERROR (asc ''Error with 2FA: '' @ exn_str e) st))"

definition verify_2fa_password :: "env \<Rightarrow> int \<Rightarrow> str \<Rightarrow> bot \<Rightarrow> (bool \<times> str) \<times> bot" where
  "verify_2fa_password ev user_id password st =
     (case map_of (pending_authentications st) user_id of
        None \<Rightarrow> ((False, asc ''No pending authentication found''), st)
      | Some auth_data \<Rightarrow>
         (let st1 = called (TgSignInPassword (pa_client auth_data) password) st in
          case tg_sign_in_password ev of
            Ok _ \<Rightarrow>
              ((True, asc ''2FA authentication successful!''),
               logger INFO (asc ''2FA authentication successful for '' @
                            pa_phone_number auth_data @ asc '', user '' @ str_int user_id)
                 (store_login ev user_id auth_data st1))
          | Raise e \<Rightarrow> verify_2fa_except e st1))"

section \<open>TelegramBot: texts and keyboards\<close>

text \<open>
  The symbols that open the program's texts, as the code points of the literals in the
  source file.
\<close>

definition sym_lock :: str where
  "sym_lock = [0xf8ff, 0xfc, 0xee, 0xea]"

definition sym_add :: str where
  "sym_add = [0x201a, 0xfb, 0xef]"

definition sym_bullet :: str where
  "sym_bullet = [0x201a, 0xc4, 0xa2]"

definition sym_cross :: str where
  "sym_cross = [0x201a, 0xf9, 0xe5]"

definition sym_check :: str where
  "sym_check = [0x201a, 0xfa, 0xd6]"

definition sym_hourglass :: str where
  "sym_hourglass = [0x201a, 0xe8, 0x2265]"

definition sym_phone :: str where
  "sym_phone = [0xf8ff, 0xfc, 0xec, 0xb1]"

definition sym_back :: str where
  "sym_back = [0xf8ff, 0xfc, 0xee, 0xf4]"

definition sym_info :: str where
  "sym_info = [0x201a, 0xd1, 0x3c0, 0xd4, 0x220f, 0xe8]"

definition sym_mail :: str where
  "sym_mail = [0xf8ff, 0xfc, 0xec, 0xae]"

definition label_add_number :: "str" where
  "label_add_number =
    sym_add @ asc '' Add Number''"

definition label_my_numbers :: "str" where
  "label_my_numbers =
    sym_phone @ asc '' My Numbers''"

definition label_help :: "str" where
  "label_help =
    sym_info @ asc '' Help''"

definition welcome_text :: "str \<Rightarrow> str" where
  "welcome_text first_name =
    sym_lock @ asc '' Welcome to Telegram Account Manager, '' @ first_name @ asc ''!'' @
    [10, 10] @ asc ''This bot helps you manage multiple Telegram accounts safely.'' @
    [10, 10] @ asc ''Available commands:'' @ [10] @ sym_bullet @
    asc '' Add Number - Add new phone number'' @ [10] @ sym_bullet @
    asc '' My Numbers - View your numbers'' @ [10] @ sym_bullet @
    asc '' Help - Get assistance'' @ [10, 10] @ asc ''Choose an option from the menu below:''"

definition help_text :: "str" where
  "help_text =
    sym_lock @ asc '' <b>Telegram Account Manager Help</b>'' @ [10, 10] @
    asc ''<b>How to use:</b>'' @ [10] @ asc ''1. Click '' @ [39] @ sym_add @
    asc '' Add Number'' @ [39] @ asc '' to add a new phone number'' @ [10] @
    asc ''2. Enter phone number in international format (+1234567890)'' @ [10] @
    asc ''3. Wait for verification code via Telegram'' @ [10] @
    asc ''4. Enter the received code'' @ [10] @
    asc ''5. If you have 2FA enabled, enter your password'' @ [10] @
    asc ''6. Your session will be saved securely'' @ [10, 10] @ asc ''<b>Features:</b>'' @
    [10] @ sym_bullet @ asc '' Unlimited phone numbers'' @ [10] @ sym_bullet @
    asc '' Secure session management'' @ [10] @ sym_bullet @ asc '' 2FA support'' @ [10] @
    sym_bullet @ asc '' Error handling and logging'' @ [10, 10] @
    asc ''<b>Security Notes:</b>'' @ [10] @ sym_bullet @
    asc '' Sessions are stored locally and encrypted'' @ [10] @ sym_bullet @
    asc '' Never share your verification codes'' @ [10] @ sym_bullet @
    asc '' Use strong 2FA passwords'' @ [10, 10] @ asc ''Need more help? Contact support.''"

definition prompt_phone_text :: "str" where
  "prompt_phone_text =
    sym_phone @ asc '' Please send your phone number in international format.'' @ [10] @
    asc ''Example: +1234567890'' @ [10, 10] @ asc ''Make sure to include the country code!''"

definition your_numbers_text :: "str" where
  "your_numbers_text =
    sym_phone @ asc '' Your registered numbers:''"

definition invalid_phone_text :: "str" where
  "invalid_phone_text =
    sym_cross @ asc '' Invalid phone number format.'' @ [10] @
    asc ''Please use international format: +1234567890''"

definition sending_code_text :: "str" where
  "sending_code_text =
    sym_hourglass @ asc '' Sending verification code...''"

definition already_authenticated_text :: "str" where
  "already_authenticated_text =
    sym_check @ asc '' This number is already authenticated!''"

definition enter_code_text :: "str \<Rightarrow> str" where
  "enter_code_text message_text =
    sym_mail @ asc '' '' @ message_text @ [10, 10] @
    asc ''Please enter the verification code you received:''"

definition failure_text :: "str \<Rightarrow> str" where
  "failure_text message_text =
    sym_cross @ asc '' '' @ message_text"

definition success_text :: "str \<Rightarrow> str" where
  "success_text message_text =
    sym_check @ asc '' '' @ message_text"

definition enter_2fa_text :: "str" where
  "enter_2fa_text =
    sym_lock @ asc '' Two-factor authentication is enabled.'' @ [10] @
    asc ''Please enter your 2FA password:''"

definition main_menu_text :: "str" where
  "main_menu_text =
    sym_lock @ asc '' Main Menu''"

definition number_details_text :: "int \<Rightarrow> str" where
  "number_details_text number_id =
    sym_phone @ asc '' Number details for ID: '' @ str_int number_id @ [10, 10] @
    asc ''More features coming soon!''"

definition label_back :: "str" where
  "label_back =
    sym_back @ asc '' Back''"

definition startswith :: "str \<Rightarrow> str \<Rightarrow> bool" where
  "startswith s prefix = (take (length prefix) s = prefix)"

text \<open>\<open>s.split(sep)\<close> for a separator of one code point.\<close>

fun split_str :: "nat \<Rightarrow> str \<Rightarrow> str list" where
  "split_str sep [] = [[]]"
| "split_str sep (c # cs) =
     (if c = sep then [] # split_str sep cs
      else (case split_str sep cs of p # ps \<Rightarrow> (c # p) # ps | [] \<Rightarrow> [[c]]))"

definition index_list :: "'a list \<Rightarrow> nat \<Rightarrow> 'a res" where
  "index_list xs i =
     (if i < length xs then Ok (xs ! i)
      else Raise (Exn IndexError (asc ''list index out of range'')))"

definition key_error :: "string \<Rightarrow> exn" where
  "key_error k = Exn KeyError ([39] @ asc k @ [39])"

definition get_main_keyboard :: reply_markup where
  "get_main_keyboard = ReplyKeyboard [[label_add_number], [label_my_numbers], [label_help]]"

definition get_numbers_keyboard :: "int \<Rightarrow> database \<Rightarrow> reply_markup" where
  "get_numbers_keyboard user_id d =
     (let nums = get_user_numbers user_id d in
      if nums = [] then InlineKeyboard [[(asc ''No numbers added'', asc ''none'')]]
      else InlineKeyboard
             (map (\<lambda>r. [((if n_is_authenticated r then sym_check else sym_hourglass) @
                          asc '' '' @ n_phone_number r @ asc '' ('' @ n_status r @ asc '')'',
                          asc ''number_'' @ str_int (n_id r))]) nums @
              [[(label_back, asc ''back_main'')]]))"

section \<open>Inbound updates\<close>

text \<open>
  An update as the Bot API delivers it. Keys that the API may leave out are options;
  reading an absent key raises \<open>KeyError\<close>.
\<close>

record tg_user =
  tu_id :: int
  tu_username :: "str option"
  tu_first_name :: "str option"
  tu_last_name :: "str option"

record chat =
  chat_id :: int
  chat_type :: str

record message =
  msg_from :: "tg_user option"
  msg_chat :: chat
  msg_text :: "str option"
  msg_message_id :: int

record callback_query =
  cq_id :: str
  cq_data :: "str option"
  cq_from :: tg_user
  cq_message :: "message option"

record update =
  update_id :: int
  upd_message :: "message option"
  upd_callback_query :: "callback_query option"

section \<open>TelegramBot: outbound requests\<close>

text \<open>
  One HTTP POST to the Bot API: the request is issued, then the call returns or raises
  as the environment says for the request of that number.
\<close>

definition post :: "env \<Rightarrow> api_call \<Rightarrow> bot \<Rightarrow> unit res \<times> bot" where
  "post ev call st = (transport ev (length (outbox st)), st\<lparr>outbox := outbox st @ [call]\<rparr>)"

definition send_message ::
  "env \<Rightarrow> int \<Rightarrow> str \<Rightarrow> reply_markup option \<Rightarrow> bot \<Rightarrow> unit res \<times> bot" where
  "send_message ev chat txt markup st = post ev (SendMessage chat txt markup) st"

definition edit_message ::
  "env \<Rightarrow> int \<Rightarrow> int \<Rightarrow> str \<Rightarrow> reply_markup option \<Rightarrow> bot \<Rightarrow> unit res \<times> bot" where
  "edit_message ev chat message_id txt markup st =
     post ev (EditMessageText chat message_id txt markup) st"

definition answer_callback_query :: "env \<Rightarrow> str \<Rightarrow> str \<Rightarrow> bot \<Rightarrow> unit res \<times> bot" where
  "answer_callback_query ev callback_query_id txt st =
     post ev (AnswerCallbackQuery callback_query_id txt) st"

section \<open>TelegramBot: handlers\<close>

definition handle_start_command :: "env \<Rightarrow> message \<Rightarrow> bot \<Rightarrow> unit res \<times> bot" where
  "handle_start_command ev msg st =
     (case msg_from msg of
        None \<Rightarrow> (Raise (key_error ''from''), st)
      | Some user \<Rightarrow>
          send_message ev (chat_id (msg_chat msg))
            (welcome_text (case tu_first_name user of None \<Rightarrow> asc ''User'' | Some n \<Rightarrow> n))
            (Some get_main_keyboard)
            (st\<lparr>db := add_user (clock ev) (tu_id user) (tu_username user) (tu_first_name user)
                         (tu_last_name user) (db st)\<rparr>))"

definition handle_help_command :: "env \<Rightarrow> message \<Rightarrow> bot \<Rightarrow> unit res \<times> bot" where
  "handle_help_command ev msg st = send_message ev (chat_id (msg_chat msg)) help_text None st"

text \<open>The branch of \<open>handle_user_input\<close> for the state \<open>waiting_phone\<close>.\<close>

definition input_phone ::
  "lib \<Rightarrow> env \<Rightarrow> int \<Rightarrow> int \<Rightarrow> str \<Rightarrow> bot \<Rightarrow> unit res \<times> bot" where
  "input_phone l ev user_id chat txt st =
     (if \<not> startswith txt (asc ''+'') \<or> length txt < 10
      then send_message ev chat invalid_phone_text None st
      else
        (case send_message ev chat sending_code_text None
                (st\<lparr>db := snd (add_phone_number (clock ev) user_id txt (db st))\<rparr>) of
           (Raise e, st2) \<Rightarrow> (Raise e, st2)
         | (Ok _, st2) \<Rightarrow>
            (case send_code l ev user_id txt st2 of
               ((success, message_text), st3) \<Rightarrow>
                 if success then
                   if message_text = asc ''Already authenticated'' then
                     (case send_message ev chat already_authenticated_text
                             (Some get_main_keyboard) st3 of
                        (Raise e, st4) \<Rightarrow> (Raise e, st4)
                      | (Ok _, st4) \<Rightarrow>
                          (Ok (), st4\<lparr>user_states := AList.delete user_id (user_states st4)\<rparr>))
                   else
                     send_message ev chat (enter_code_text message_text) None
                       (st3\<lparr>user_states := AList.update user_id waiting_code (user_states st3)\<rparr>)
                 else
                   (case send_message ev chat (failure_text message_text)
                           (Some get_main_keyboard) st3 of
                      (Raise e, st4) \<Rightarrow> (Raise e, st4)
                    | (Ok _, st4) \<Rightarrow>
                        (Ok (), st4\<lparr>user_states := AList.delete user_id (user_states st4)\<rparr>)))))"

text \<open>The branch for \<open>waiting_code\<close>.\<close>

definition input_code :: "env \<Rightarrow> int \<Rightarrow> int \<Rightarrow> str \<Rightarrow> bot \<Rightarrow> unit res \<times> bot" where
  "input_code ev user_id chat txt st =
     (case verify_code ev user_id txt st of
        ((success, message_text), st1) \<Rightarrow>
          if success then
            (case send_message ev chat (success_text message_text) (Some get_main_keyboard) st1 of
               (Raise e, st2) \<Rightarrow> (Raise e, st2)
             | (Ok _, st2) \<Rightarrow>
                 (Ok (), st2\<lparr>user_states := AList.delete user_id (user_states st2)\<rparr>))
          else if message_text = asc ''2FA_REQUIRED'' then
            send_message ev chat enter_2fa_text None
              (st1\<lparr>user_states := AList.update user_id waiting_2fa (user_states st1)\<rparr>)
          else send_message ev chat (failure_text message_text) None st1)"

text \<open>The branch for \<open>waiting_2fa\<close>.\<close>

definition input_2fa :: "env \<Rightarrow> int \<Rightarrow> int \<Rightarrow> str \<Rightarrow> bot \<Rightarrow> unit res \<times> bot" where
  "input_2fa ev user_id chat txt st =
     (case verify_2fa_password ev user_id txt st of
        ((success, message_text), st1) \<Rightarrow>
          (case send_message ev chat
                  ((if success then sym_check else sym_cross) @ asc '' '' @ message_text)
                  (Some get_main_keyboard) st1 of
             (Raise e, st2) \<Rightarrow> (Raise e, st2)
           | (Ok _, st2) \<Rightarrow>
               (Ok (), st2\<lparr>user_states := AList.delete user_id (user_states st2)\<rparr>)))"

definition handle_user_input :: "lib \<Rightarrow> env \<Rightarrow> message \<Rightarrow> bot \<Rightarrow> unit res \<times> bot" where
  "handle_user_input l ev msg st =
     (case msg_from msg of
        None \<Rightarrow> (Raise (key_error ''from''), st)
      | Some user \<Rightarrow>
         (case msg_text msg of
            None \<Rightarrow> (Raise (key_error ''text''), st)
          | Some txt \<Rightarrow>
             (let user_id = tu_id user; chat = chat_id (msg_chat msg) in
              case map_of (user_states st) user_id of
                Some waiting_phone \<Rightarrow> input_phone l ev user_id chat txt st
              | Some waiting_code \<Rightarrow> input_code ev user_id chat txt st
              | Some waiting_2fa \<Rightarrow> input_2fa ev user_id chat txt st
              | None \<Rightarrow> (Ok (), st))))"

definition handle_text_message :: "lib \<Rightarrow> env \<Rightarrow> message \<Rightarrow> bot \<Rightarrow> unit res \<times> bot" where
  "handle_text_message l ev msg st =
     (case msg_from msg of
        None \<Rightarrow> (Raise (key_error ''from''), st)
      | Some user \<Rightarrow>
         (case msg_text msg of
            None \<Rightarrow> (Raise (key_error ''text''), st)
          | Some txt \<Rightarrow>
             (let user_id = tu_id user; chat = chat_id (msg_chat msg) in
              if chat_type (msg_chat msg) \<noteq> asc ''private'' then (Ok (), st)
              else if txt = label_add_number then
                send_message ev chat prompt_phone_text None
                  (st\<lparr>user_states := AList.update user_id waiting_phone (user_states st)\<rparr>)
              else if txt = label_my_numbers then
                send_message ev chat your_numbers_text
                  (Some (get_numbers_keyboard user_id (db st))) st
              else if txt = label_help then handle_help_command ev msg st
              else if map_of (user_states st) user_id \<noteq> None then handle_user_input l ev msg st
              else (Ok (), st))))"

definition handle_callback_query ::
  "lib \<Rightarrow> env \<Rightarrow> callback_query \<Rightarrow> bot \<Rightarrow> unit res \<times> bot" where
  "handle_callback_query l ev cq st =
     (case cq_data cq of
        None \<Rightarrow> (Raise (key_error ''data''), st)
      | Some data \<Rightarrow>
         (case cq_message cq of
            None \<Rightarrow> (Raise (key_error ''message''), st)
          | Some msg \<Rightarrow>
             (let user_id = tu_id (cq_from cq); chat = chat_id (msg_chat msg);
                  message_id = msg_message_id msg in
              case answer_callback_query ev (cq_id cq) [] st of
                (Raise e, st1) \<Rightarrow> (Raise e, st1)
              | (Ok _, st1) \<Rightarrow>
                  if data = asc ''back_main'' then
                    edit_message ev chat message_id main_menu_text None st1
                  else if startswith data (asc ''number_'') then
                    (case index_list (split_str 95 data) 1 of
                       Raise e \<Rightarrow> (Raise e, st1)
                     | Ok seg \<Rightarrow>
                        (case py_int l seg of
                           Raise e \<Rightarrow> (Raise e, st1)
                         | Ok number_id \<Rightarrow>
                             edit_message ev chat message_id (number_details_text number_id)
                               (Some (InlineKeyboard [[(label_back, asc ''back_numbers'')]]))
                               st1))
                  else if data = asc ''back_numbers'' then
                    edit_message ev chat message_id your_numbers_text
                      (Some (get_numbers_keyboard user_id (db st1))) st1
                  else (Ok (), st1))))"

section \<open>TelegramBot: the dispatcher\<close>

text \<open>The body of the \<open>try\<close> in \<open>process_update\<close>.\<close>

definition process_update_try :: "lib \<Rightarrow> env \<Rightarrow> update \<Rightarrow> bot \<Rightarrow> unit res \<times> bot" where
  "process_update_try l ev upd st =
     (let st1 = st\<lparr>offset := update_id upd + 1\<rparr> in
      case upd_message upd of
        Some msg \<Rightarrow>
          if chat_type (msg_chat msg) \<noteq> asc ''private'' then (Ok (), st1)
          else
            (case msg_text msg of
               None \<Rightarrow> (Ok (), st1)
             | Some txt \<Rightarrow>
                 if startswith txt (asc ''/start'') then handle_start_command ev msg st1
                 else if startswith txt (asc ''/help'') then handle_help_command ev msg st1
                 else handle_text_message l ev msg st1)
      | None \<Rightarrow>
          (case upd_callback_query upd of
             Some cq \<Rightarrow> handle_callback_query l ev cq st1
           | None \<Rightarrow> (Ok (), st1)))"

text \<open>\<open>except Exception as e: logger.error(...)\<close> around that body.\<close>

definition process_update :: "lib \<Rightarrow> env \<Rightarrow> update \<Rightarrow> bot \<Rightarrow> unit res \<times> bot" where
  "process_update l ev upd st =
     (case process_update_try l ev upd st of
        (Raise e, st1) \<Rightarrow>
          (Ok (), logger ERROR (asc ''Error processing update: '' @ exn_str e) st1)
      | (Ok u, st1) \<Rightarrow> (Ok u, st1))"

text \<open>
  The loop \<open>for update in updates: await self.process_update(update)\<close> of \<open>run\<close>, each
  update with the environment it is handled in; an exception leaving \<open>process_update\<close>
  would leave the loop.
\<close>

fun process_updates :: "lib \<Rightarrow> (env \<times> update) list \<Rightarrow> bot \<Rightarrow> unit res \<times> bot" where
  "process_updates l [] st = (Ok (), st)"
| "process_updates l ((ev, upd) # rest) st =
     (case process_update l ev upd st of
        (Raise e, st1) \<Rightarrow> (Raise e, st1)
      | (Ok _, st1) \<Rightarrow> process_updates l rest st1)"

text \<open>The state \<open>TelegramBot()\<close> starts in.\<close>

definition init_bot :: bot where
  "init_bot = \<lparr>db = init_database, pending_authentications = [], active_clients = [],
                user_states = [], offset = 0, outbox = [], client_calls = [], logged = []\<rparr>"

section \<open>Properties of reachable states\<close>

text \<open>
  Every row of the table \<open>numbers\<close> has the status \<open>pending\<close> or \<open>authenticated\<close>; no
  user id occurs twice among the keys of the registry.
\<close>

definition statuses_ok :: "database \<Rightarrow> bool" where
  "statuses_ok d =
     list_all (\<lambda>r. n_status r = asc ''pending'' \<or> n_status r = asc ''authenticated'')
       (numbers d)"

definition bot_inv :: "bot \<Rightarrow> bool" where
  "bot_inv st = (distinct (map fst (pending_authentications st)) \<and> statuses_ok (db st))"

section \<open>Sample inputs\<close>

text \<open>
  Concrete values on which the theorems below are instantiated: a stand-in for the two
  library functions, an environment in which every call succeeds, a user, and states of
  a conversation in progress.
\<close>

definition sample_lib :: lib where
  "sample_lib =
     \<lparr>md5_hexdigest = (\<lambda>s. digits (sum_list s)),
      py_int = (\<lambda>s. if s \<noteq> [] \<and> list_all (\<lambda>c. 48 \<le> c \<and> c \<le> 57) s
                     then Ok (int (foldl (\<lambda>a c. 10 * a + (c - 48)) 0 s))
                     else Raise (Exn ValueError (asc ''invalid literal for int()'')))\<rparr>"

definition env_ok :: env where
  "env_ok =
     \<lparr>clock = 1000, transport = (\<lambda>_. Ok ()), tg_connect = Ok (),
      tg_is_user_authorized = Ok False, tg_disconnect = Ok (),
      tg_send_code_request = Ok (asc ''hash2''), tg_sign_in_code = Ok (),
      tg_sign_in_password = Ok ()\<rparr>"

definition alice :: tg_user where
  "alice = \<lparr>tu_id = 7, tu_username = Some (asc ''alice''),
             tu_first_name = Some (asc ''Alice''), tu_last_name = None\<rparr>"

definition text_in :: "str \<Rightarrow> str \<Rightarrow> message" where
  "text_in kind txt =
     \<lparr>msg_from = Some alice, msg_chat = \<lparr>chat_id = 7, chat_type = kind\<rparr>,
      msg_text = Some txt, msg_message_id = 1\<rparr>"

definition sample_auth :: pending_auth where
  "sample_auth =
     \<lparr>pa_client = TelegramClient (asc ''sessions/session_0''),
      pa_phone_number = asc ''+15551234567'', pa_phone_code_hash = asc ''hash1'',
      pa_session_name = asc ''sessions/session_0''\<rparr>"

definition sample_numbers :: database where
  "sample_numbers =
     \<lparr>users = [],
      numbers = [\<lparr>n_id = 1, n_user_id = 7, n_phone_number = asc ''+15551234567'',
                  n_is_authenticated = False, n_added_at = 900, n_last_login = None,
                  n_status = asc ''pending''\<rparr>],
      numbers_seq = 1, sessions = [], sessions_seq = 0\<rparr>"

definition st_phone :: bot where
  "st_phone = init_bot\<lparr>user_states := [(7, waiting_phone)]\<rparr>"

definition st_code :: bot where
  "st_code = init_bot\<lparr>db := sample_numbers, pending_authentications := [(7, sample_auth)],
                       user_states := [(7, waiting_code)]\<rparr>"

definition st_2fa :: bot where
  "st_2fa = init_bot\<lparr>db := sample_numbers, pending_authentications := [(7, sample_auth)],
                      user_states := [(7, waiting_2fa)]\<rparr>"

definition env_2fa_needed :: env where
  "env_2fa_needed =
     env_ok\<lparr>tg_sign_in_code :=
              Raise (Exn SessionPasswordNeededError (asc ''Two-steps verification is enabled''))\<rparr>"

definition env_bad_password :: env where
  "env_bad_password =
     env_ok\<lparr>tg_sign_in_password :=
              Raise (Exn PasswordHashInvalidError (asc ''The password is invalid''))\<rparr>"

definition env_provider_error :: "str \<Rightarrow> env" where
  "env_provider_error detail =
     env_ok\<lparr>tg_sign_in_code := Raise (Exn OtherException detail)\<rparr>"

definition env_flood_wait :: env where
  "env_flood_wait =
     env_ok\<lparr>tg_send_code_request :=
              Raise (Exn (FloodWaitError 30) (asc ''A wait of 30 seconds is required''))\<rparr>"

text \<open>
  A conversation from the start: the menu entry, a phone number, a code that is answered
  with the demand for a second factor, a wrong password.
\<close>

definition upd_text :: "int \<Rightarrow> str \<Rightarrow> update" where
  "upd_text i t =
     \<lparr>update_id = i, upd_message = Some (text_in (asc ''private'') t),
      upd_callback_query = None\<rparr>"

definition two_factor_conversation :: "(env \<times> update) list" where
  "two_factor_conversation =
     [(env_ok, upd_text 1 label_add_number),
      (env_ok, upd_text 2 (asc ''+15551234567'')),
      (env_2fa_needed, upd_text 3 (asc ''12345'')),
      (env_bad_password, upd_text 4 (asc ''hunter2''))]"

definition env_already_authorized :: env where
  "env_already_authorized = env_ok\<lparr>tg_is_user_authorized := Ok True\<rparr>"

text \<open>
  The same conversation, continued: the menu entry again, and a phone number whose
  session is found to be authorized already.
\<close>

definition repeat_conversation :: "(env \<times> update) list" where
  "repeat_conversation =
     two_factor_conversation @
     [(env_ok, upd_text 5 label_add_number),
      (env_already_authorized, upd_text 6 (asc ''+15557654321''))]"

definition group_callback :: update where
  "group_callback =
     \<lparr>update_id = 41, upd_message = None,
      upd_callback_query =
        Some \<lparr>cq_id = asc ''q1'', cq_data = Some (asc ''back_main''), cq_from = alice,
              cq_message = Some \<lparr>msg_from = None,
                                  msg_chat = \<lparr>chat_id = -100, chat_type = asc ''group''\<rparr>,
                                  msg_text = None, msg_message_id = 55\<rparr>\<rparr>\<rparr>"

definition broken_callback :: update where
  "broken_callback =
     \<lparr>update_id = 42, upd_message = None,
      upd_callback_query =
        Some \<lparr>cq_id = asc ''q2'', cq_data = None, cq_from = alice, cq_message = None\<rparr>\<rparr>"

section \<open>Outbound requests and the state\<close>

lemma post_frame [simp]:
  "db (snd (post ev c st)) = db st"
  "pending_authentications (snd (post ev c st)) = pending_authentications st"
  "active_clients (snd (post ev c st)) = active_clients st"
  "user_states (snd (post ev c st)) = user_states st"
  "offset (snd (post ev c st)) = offset st"
  "client_calls (snd (post ev c st)) = client_calls st"
  "logged (snd (post ev c st)) = logged st"
  "outbox (snd (post ev c st)) = outbox st @ [c]"
  "fst (post ev c st) = transport ev (length (outbox st))"
  by (simp_all add: post_def)

lemma handle_user_input_state:
  assumes "msg_from msg = Some user" and "msg_text msg = Some t"
  shows "handle_user_input l ev msg st =
           (case map_of (user_states st) (tu_id user) of
              Some waiting_phone \<Rightarrow> input_phone l ev (tu_id user) (chat_id (msg_chat msg)) t st
            | Some waiting_code \<Rightarrow> input_code ev (tu_id user) (chat_id (msg_chat msg)) t st
            | Some waiting_2fa \<Rightarrow> input_2fa ev (tu_id user) (chat_id (msg_chat msg)) t st
            | None \<Rightarrow> (Ok (), st))"
  using assms by (simp add: handle_user_input_def Let_def)

section \<open>Sign-in without a pending authentication\<close>

text \<open>
  C4. When the registry has no entry for the user, \<open>verify_code\<close> returns the
  no-pending-authentication outcome and the whole state (stores, registry, requests sent,
  client calls) is the one it started from.
\<close>

theorem verify_code_no_pending:
  "map_of (pending_authentications st) user_id = None \<Longrightarrow>
   verify_code ev user_id code st = ((False, asc ''No pending authentication found''), st)"
  by (simp add: verify_code_def)

theorem verify_code_no_pending_witness:
  "map_of (pending_authentications init_bot) 7 = None \<and>
   verify_code env_ok 7 (asc ''12345'') init_bot =
     ((False, asc ''No pending authentication found''), init_bot)"
  using verify_code_no_pending [of init_bot 7 env_ok "asc ''12345''"]
  by (simp add: init_bot_def)

section \<open>Successful sign-in\<close>

lemma store_login_db:
  "db (store_login ev user_id a st) =
     update_number_status (clock ev) (get_number_id user_id (pa_phone_number a) (db st))
       (asc ''authenticated'') True
       (save_session (clock ev) user_id (pa_phone_number a) (pa_session_name a) (db st))"
  by (simp add: store_login_def Let_def get_number_id_def save_session_def)

lemma store_login_pending:
  "pending_authentications (store_login ev user_id a st) =
     AList.delete user_id (pending_authentications st)"
  by (simp add: store_login_def Let_def)



section \<open>The second factor\<close>

lemma verify_code_2fa_required:
  assumes "map_of (pending_authentications st) uid = Some a"
    and "tg_sign_in_code ev = Raise e" and "exn_cls e = SessionPasswordNeededError"
  shows "verify_code ev uid code st =
           ((False, asc ''2FA_REQUIRED''),
            called (TgSignInCode (pa_client a) (pa_phone_number a) code (pa_phone_code_hash a)) st)"
  using assms by (simp add: verify_code_def verify_code_except_def Let_def)

lemma verify_2fa_failure:
  assumes "map_of (pending_authentications st) uid = Some a"
    and "tg_sign_in_password ev = Raise e"
  shows "fst (fst (verify_2fa_password ev uid pw st)) = False"
    and "pending_authentications (snd (verify_2fa_password ev uid pw st)) =
           pending_authentications st"
    and "db (snd (verify_2fa_password ev uid pw st)) = db st"
    and "user_states (snd (verify_2fa_password ev uid pw st)) = user_states st"
    and "outbox (snd (verify_2fa_password ev uid pw st)) = outbox st"
  using assms
  by (simp_all add: verify_2fa_password_def verify_2fa_except_def Let_def called_def logger_def
        split: exn_class.splits)

lemma input_2fa_pending:
  "pending_authentications (snd (input_2fa ev uid chat t st)) =
     pending_authentications (snd (verify_2fa_password ev uid t st))"
  by (cases "verify_2fa_password ev uid t st")
    (auto simp: input_2fa_def send_message_def post_def split: res.splits)

lemma input_2fa_states:
  "transport ev (length (outbox (snd (verify_2fa_password ev uid t st)))) = Ok () \<Longrightarrow>
   user_states (snd (input_2fa ev uid chat t st)) =
     AList.delete uid (user_states (snd (verify_2fa_password ev uid t st)))"
  by (cases "verify_2fa_password ev uid t st")
    (auto simp: input_2fa_def send_message_def post_def split: res.splits)

text \<open>
  C1, as the program has it. For a user with a pending authentication: when the code
  step answers that a second factor is needed, \<open>verify_code\<close> returns \<open>2FA_REQUIRED\<close>,
  the registry is unchanged and the conversation moves to \<open>waiting_2fa\<close>. When the
  password step then fails, \<open>verify_2fa_password\<close> returns a failure, the registry is
  again unchanged (the pending entry stays), and, once the reply has been sent, the
  user has no conversation state (idle).
\<close>

theorem two_factor_flow:
  assumes "msg_from msg = Some user" and "msg_text msg = Some t"
    and "map_of (pending_authentications st) (tu_id user) = Some a"
  shows
    "(map_of (user_states st) (tu_id user) = Some waiting_code \<and>
      tg_sign_in_code ev = Raise e \<and> exn_cls e = SessionPasswordNeededError \<longrightarrow>
        fst (verify_code ev (tu_id user) t st) = (False, asc ''2FA_REQUIRED'') \<and>
        pending_authentications (snd (handle_user_input l ev msg st)) =
          pending_authentications st \<and>
        map_of (user_states (snd (handle_user_input l ev msg st))) (tu_id user) =
          Some waiting_2fa) \<and>
     (map_of (user_states st) (tu_id user) = Some waiting_2fa \<and>
      tg_sign_in_password ev = Raise e \<longrightarrow>
        fst (fst (verify_2fa_password ev (tu_id user) t st)) = False \<and>
        pending_authentications (snd (handle_user_input l ev msg st)) =
          pending_authentications st \<and>
        (transport ev (length (outbox st)) = Ok () \<longrightarrow>
           map_of (user_states (snd (handle_user_input l ev msg st))) (tu_id user) = None))"
proof (intro conjI impI)
  assume h: "map_of (user_states st) (tu_id user) = Some waiting_code \<and>
      tg_sign_in_code ev = Raise e \<and> exn_cls e = SessionPasswordNeededError"
  from h assms(3) have vc: "verify_code ev (tu_id user) t st =
      ((False, asc ''2FA_REQUIRED''),
       called (TgSignInCode (pa_client a) (pa_phone_number a) t (pa_phone_code_hash a)) st)"
    by (simp add: verify_code_2fa_required)
  show "fst (verify_code ev (tu_id user) t st) = (False, asc ''2FA_REQUIRED'')"
    by (simp add: vc)
  from h have hu: "handle_user_input l ev msg st =
      input_code ev (tu_id user) (chat_id (msg_chat msg)) t st"
    by (simp add: handle_user_input_state [OF assms(1,2)])
  show "pending_authentications (snd (handle_user_input l ev msg st)) =
      pending_authentications st"
    by (simp add: hu input_code_def vc send_message_def called_def)
  show "map_of (user_states (snd (handle_user_input l ev msg st))) (tu_id user) =
      Some waiting_2fa"
    by (simp add: hu input_code_def vc send_message_def called_def update_conv')
next
  assume h: "map_of (user_states st) (tu_id user) = Some waiting_2fa \<and>
      tg_sign_in_password ev = Raise e"
  then have raise: "tg_sign_in_password ev = Raise e" by simp
  note vf = verify_2fa_failure [OF assms(3) raise, of "t"]
  show "fst (fst (verify_2fa_password ev (tu_id user) t st)) = False"
    by (rule vf(1))
  from h have hu: "handle_user_input l ev msg st =
      input_2fa ev (tu_id user) (chat_id (msg_chat msg)) t st"
    by (simp add: handle_user_input_state [OF assms(1,2)])
  show "pending_authentications (snd (handle_user_input l ev msg st)) =
      pending_authentications st"
    by (simp add: hu input_2fa_pending vf(2))
  assume "transport ev (length (outbox st)) = Ok ()"
  then have "user_states (snd (handle_user_input l ev msg st)) =
      AList.delete (tu_id user) (user_states st)"
    by (simp add: hu input_2fa_states vf(4,5))
  then show "map_of (user_states (snd (handle_user_input l ev msg st))) (tu_id user) = None"
    by (simp add: delete_conv')
qed

theorem two_factor_flow_witness:
  "map_of (pending_authentications
             (snd (handle_user_input sample_lib env_2fa_needed
                     (text_in (asc ''private'') (asc ''12345'')) st_code))) 7 = Some sample_auth \<and>
   map_of (user_states
             (snd (handle_user_input sample_lib env_2fa_needed
                     (text_in (asc ''private'') (asc ''12345'')) st_code))) 7 = Some waiting_2fa \<and>
   map_of (user_states
             (snd (handle_user_input sample_lib env_bad_password
                     (text_in (asc ''private'') (asc ''hunter2'')) st_2fa))) 7 = None"
proof -
  have m: "msg_from (text_in (asc ''private'') x) = Some alice"
    "msg_text (text_in (asc ''private'') x) = Some x" for x
    by (simp_all add: text_in_def)
  have p: "map_of (pending_authentications st_code) (tu_id alice) = Some sample_auth"
    "map_of (pending_authentications st_2fa) (tu_id alice) = Some sample_auth"
    by (simp_all add: st_code_def st_2fa_def alice_def)
  have a: "map_of (user_states st_code) (tu_id alice) = Some waiting_code \<and>
      tg_sign_in_code env_2fa_needed =
        Raise (Exn SessionPasswordNeededError (asc ''Two-steps verification is enabled'')) \<and>
      exn_cls (Exn SessionPasswordNeededError (asc ''Two-steps verification is enabled'')) =
        SessionPasswordNeededError"
    by (simp add: st_code_def alice_def env_2fa_needed_def)
  have b: "map_of (user_states st_2fa) (tu_id alice) = Some waiting_2fa \<and>
      tg_sign_in_password env_bad_password =
        Raise (Exn PasswordHashInvalidError (asc ''The password is invalid''))"
    by (simp add: st_2fa_def alice_def env_bad_password_def)
  have s: "transport env_bad_password (length (outbox st_2fa)) = Ok ()"
    by (simp add: env_bad_password_def env_ok_def)
  have i: "tu_id alice = 7" by (simp add: alice_def)
  show ?thesis
    using two_factor_flow [OF m(1) m(2) p(1), where ev = env_2fa_needed and l = sample_lib
        and e = "Exn SessionPasswordNeededError (asc ''Two-steps verification is enabled'')",
        of "asc ''12345''"] a
      two_factor_flow [OF m(1) m(2) p(2), where ev = env_bad_password and l = sample_lib
        and e = "Exn PasswordHashInvalidError (asc ''The password is invalid'')",
        of "asc ''hunter2''"] b s p
    by (simp add: i)
qed

text \<open>
  C1 as stated fails on the removal of the entry: after a wrong password the user is
  idle, and the pending authentication is still in the registry. This holds for the
  single step from a state waiting for the password, and for the whole conversation run
  from the initial state.
\<close>

theorem two_factor_failure_keeps_entry:
  "fst (verify_2fa_password env_bad_password 7 (asc ''hunter2'') st_2fa) =
     (False, asc ''Invalid 2FA password'') \<and>
   map_of (pending_authentications
             (snd (handle_user_input sample_lib env_bad_password
                     (text_in (asc ''private'') (asc ''hunter2'')) st_2fa))) 7 = Some sample_auth \<and>
   map_of (user_states
             (snd (handle_user_input sample_lib env_bad_password
                     (text_in (asc ''private'') (asc ''hunter2'')) st_2fa))) 7 = None \<and>
   pending_authentications (snd (process_updates sample_lib two_factor_conversation init_bot)) =
     [(7, \<lparr>pa_client = TelegramClient (get_session_name sample_lib 7 (asc ''+15551234567'')),
            pa_phone_number = asc ''+15551234567'', pa_phone_code_hash = asc ''hash2'',
            pa_session_name = get_session_name sample_lib 7 (asc ''+15551234567'')\<rparr>)] \<and>
   user_states (snd (process_updates sample_lib two_factor_conversation init_bot)) = []"
proof -
  have step: "fst (verify_2fa_password env_bad_password 7 (asc ''hunter2'') st_2fa) =
       (False, asc ''Invalid 2FA password'') \<and>
     map_of (pending_authentications
               (snd (handle_user_input sample_lib env_bad_password
                       (text_in (asc ''private'') (asc ''hunter2'')) st_2fa))) 7 =
       Some sample_auth \<and>
     map_of (user_states
               (snd (handle_user_input sample_lib env_bad_password
                       (text_in (asc ''private'') (asc ''hunter2'')) st_2fa))) 7 = None"
    by (simp add: handle_user_input_def text_in_def alice_def st_2fa_def init_bot_def Let_def
          input_2fa_def verify_2fa_password_def verify_2fa_except_def env_bad_password_def
          env_ok_def called_def send_message_def post_def)
  have run: "pending_authentications
       (snd (process_updates sample_lib two_factor_conversation init_bot)) =
       [(7, \<lparr>pa_client = TelegramClient (get_session_name sample_lib 7 (asc ''+15551234567'')),
              pa_phone_number = asc ''+15551234567'', pa_phone_code_hash = asc ''hash2'',
              pa_session_name = get_session_name sample_lib 7 (asc ''+15551234567'')\<rparr>)] \<and>
     user_states (snd (process_updates sample_lib two_factor_conversation init_bot)) = []"
    by (simp add: two_factor_conversation_def process_update_def process_update_try_def
          upd_text_def text_in_def handle_text_message_def handle_user_input_def
          input_phone_def input_code_def input_2fa_def send_code_def verify_code_def
          verify_code_except_def verify_2fa_password_def verify_2fa_except_def Let_def
          startswith_def label_add_number_def label_my_numbers_def label_help_def
          sym_add_def sym_phone_def sym_info_def add_phone_number_def asc_def alice_def
          init_bot_def send_message_def post_def env_ok_def env_2fa_needed_def
          env_bad_password_def called_def logger_def init_database_def)
  from step run show ?thesis by simp
qed

section \<open>Input that is not a phone number\<close>

text \<open>
  What \<open>handle_user_input\<close> does in the state \<open>waiting_phone\<close> with a text that does not
  start with a plus sign or has fewer than 10 code points: it posts the validation
  message and nothing else; the state afterwards is the state before with that one
  request added.
\<close>

lemma input_invalid_phone:
  assumes "msg_from msg = Some user" and "msg_text msg = Some t"
    and "map_of (user_states st) (tu_id user) = Some waiting_phone"
    and "\<not> startswith t (asc ''+'') \<or> length t < 10"
  shows "handle_user_input l ev msg st =
           (transport ev (length (outbox st)),
            st\<lparr>outbox := outbox st @
                   [SendMessage (chat_id (msg_chat msg)) invalid_phone_text None]\<rparr>) \<and>
         map_of (user_states (snd (handle_user_input l ev msg st))) (tu_id user) =
           Some waiting_phone \<and>
         db (snd (handle_user_input l ev msg st)) = db st \<and>
         pending_authentications (snd (handle_user_input l ev msg st)) =
           pending_authentications st \<and>
         client_calls (snd (handle_user_input l ev msg st)) = client_calls st"
  using assms
  by (auto simp: handle_user_input_state [OF assms(1,2)] input_phone_def send_message_def post_def)

lemma labels_not_commands [simp]:
  "\<not> startswith label_add_number (asc ''/start'')"
  "\<not> startswith label_add_number (asc ''/help'')"
  "\<not> startswith label_my_numbers (asc ''/start'')"
  "\<not> startswith label_my_numbers (asc ''/help'')"
  "\<not> startswith label_help (asc ''/start'')"
  "\<not> startswith label_help (asc ''/help'')"
  by (simp_all add: startswith_def label_add_number_def label_my_numbers_def label_help_def
        sym_add_def sym_phone_def sym_info_def asc_def)

lemma labels_distinct [simp]:
  "label_add_number \<noteq> label_my_numbers" "label_add_number \<noteq> label_help"
  "label_my_numbers \<noteq> label_add_number" "label_my_numbers \<noteq> label_help"
  "label_help \<noteq> label_add_number" "label_help \<noteq> label_my_numbers"
  by (simp_all add: label_add_number_def label_my_numbers_def label_help_def
        sym_add_def sym_phone_def sym_info_def asc_def)

lemma process_update_fields:
  "user_states (snd (process_update l ev upd st)) =
     user_states (snd (process_update_try l ev upd st))"
  "db (snd (process_update l ev upd st)) = db (snd (process_update_try l ev upd st))"
  "pending_authentications (snd (process_update l ev upd st)) =
     pending_authentications (snd (process_update_try l ev upd st))"
  "client_calls (snd (process_update l ev upd st)) =
     client_calls (snd (process_update_try l ev upd st))"
  "outbox (snd (process_update l ev upd st)) = outbox (snd (process_update_try l ev upd st))"
  by (cases "process_update_try l ev upd st"; cases "fst (process_update_try l ev upd st)";
      simp add: process_update_def logger_def)+

lemma private_text_dispatch:
  assumes "upd_message upd = Some msg" and "chat_type (msg_chat msg) = asc ''private''"
    and "msg_text msg = Some t"
  shows "process_update_try l ev upd st =
           (if startswith t (asc ''/start'')
            then handle_start_command ev msg (st\<lparr>offset := update_id upd + 1\<rparr>)
            else if startswith t (asc ''/help'')
            then handle_help_command ev msg (st\<lparr>offset := update_id upd + 1\<rparr>)
            else handle_text_message l ev msg (st\<lparr>offset := update_id upd + 1\<rparr>))"
  using assms by (simp add: process_update_try_def Let_def)

lemma start_command_state:
  assumes "msg_from msg = Some user"
  shows "snd (handle_start_command ev msg st) =
           st\<lparr>db := add_user (clock ev) (tu_id user) (tu_username user) (tu_first_name user)
                      (tu_last_name user) (db st),
               outbox := outbox st @
                 [SendMessage (chat_id (msg_chat msg))
                    (welcome_text (case tu_first_name user of None \<Rightarrow> asc ''User''
                                   | Some n \<Rightarrow> n))
                    (Some get_main_keyboard)]\<rparr>"
  using assms by (simp add: handle_start_command_def send_message_def post_def)

lemma help_command_state:
  "snd (handle_help_command ev msg st) =
     st\<lparr>outbox := outbox st @ [SendMessage (chat_id (msg_chat msg)) help_text None]\<rparr>"
  by (simp add: handle_help_command_def send_message_def post_def)

lemma text_message_state:
  assumes "msg_from msg = Some user" and "msg_text msg = Some t"
    and "chat_type (msg_chat msg) = asc ''private''"
    and "map_of (user_states st) (tu_id user) = Some waiting_phone"
    and "\<not> startswith t (asc ''+'') \<or> length t < 10"
  shows "snd (handle_text_message l ev msg st) =
           (if t = label_add_number then
              st\<lparr>user_states := AList.update (tu_id user) waiting_phone (user_states st),
                  outbox := outbox st @
                    [SendMessage (chat_id (msg_chat msg)) prompt_phone_text None]\<rparr>
            else if t = label_my_numbers then
              st\<lparr>outbox := outbox st @
                    [SendMessage (chat_id (msg_chat msg)) your_numbers_text
                       (Some (get_numbers_keyboard (tu_id user) (db st)))]\<rparr>
            else if t = label_help then
              st\<lparr>outbox := outbox st @ [SendMessage (chat_id (msg_chat msg)) help_text None]\<rparr>
            else
              st\<lparr>outbox := outbox st @
                    [SendMessage (chat_id (msg_chat msg)) invalid_phone_text None]\<rparr>)"
  using assms input_invalid_phone [OF assms(1,2,4,5), of l ev]
  by (simp add: handle_text_message_def Let_def send_message_def post_def help_command_state)


lemma invalid_text_state:
  assumes "upd_message upd = Some msg" and "chat_type (msg_chat msg) = asc ''private''"
    and "msg_from msg = Some user" and "msg_text msg = Some t"
    and "map_of (user_states st) (tu_id user) = Some waiting_phone"
    and "\<not> startswith t (asc ''+'') \<or> length t < 10"
  shows "snd (process_update_try l ev upd st) =
           (if startswith t (asc ''/start'') then
              st\<lparr>offset := update_id upd + 1,
                  db := add_user (clock ev) (tu_id user) (tu_username user)
                          (tu_first_name user) (tu_last_name user) (db st),
                  outbox := outbox st @
                    [SendMessage (chat_id (msg_chat msg))
                       (welcome_text (case tu_first_name user of None \<Rightarrow> asc ''User''
                                      | Some n \<Rightarrow> n))
                       (Some get_main_keyboard)]\<rparr>
            else if startswith t (asc ''/help'') \<or> t = label_help then
              st\<lparr>offset := update_id upd + 1,
                  outbox := outbox st @
                    [SendMessage (chat_id (msg_chat msg)) help_text None]\<rparr>
            else if t = label_add_number then
              st\<lparr>offset := update_id upd + 1,
                  user_states := AList.update (tu_id user) waiting_phone (user_states st),
                  outbox := outbox st @
                    [SendMessage (chat_id (msg_chat msg)) prompt_phone_text None]\<rparr>
            else if t = label_my_numbers then
              st\<lparr>offset := update_id upd + 1,
                  outbox := outbox st @
                    [SendMessage (chat_id (msg_chat msg)) your_numbers_text
                       (Some (get_numbers_keyboard (tu_id user) (db st)))]\<rparr>
            else
              st\<lparr>offset := update_id upd + 1,
                  outbox := outbox st @
                    [SendMessage (chat_id (msg_chat msg)) invalid_phone_text None]\<rparr>)"
proof -
  let ?st1 = "st\<lparr>offset := update_id upd + 1\<rparr>"
  have s1: "map_of (user_states ?st1) (tu_id user) = Some waiting_phone"
    using assms(5) by simp
  note tm = text_message_state [OF assms(3,4,2) s1 assms(6), of l ev]
  show ?thesis
    by (simp add: private_text_dispatch [OF assms(1,2,4)] start_command_state [OF assms(3)]
          help_command_state tm)
qed

text \<open>
  C5, as the program has it. A text received in a private chat from a user in the state
  \<open>waiting_phone\<close>, which does not start with a plus sign or has fewer than 10 code
  points: the user stays in \<open>waiting_phone\<close>, no row is added to \<open>numbers\<close>, no call is
  made on an account client and the registry is unchanged. The reply is the validation
  message, and nothing else of the conversation state or the store changes, unless the
  dispatcher takes the text first: a text starting with \<open>/start\<close> gets the welcome text
  (and the user's row is written), one starting with \<open>/help\<close> or equal to the help label
  gets the help text, the other two menu labels get the phone prompt and the list of
  numbers.
\<close>

theorem invalid_phone_text_in_waiting_phone:
  assumes "upd_message upd = Some msg" and "chat_type (msg_chat msg) = asc ''private''"
    and "msg_from msg = Some user" and "msg_text msg = Some t"
    and "map_of (user_states st) (tu_id user) = Some waiting_phone"
    and "\<not> startswith t (asc ''+'') \<or> length t < 10"
  shows
    "map_of (user_states (snd (process_update l ev upd st))) (tu_id user) = Some waiting_phone \<and>
     numbers (db (snd (process_update l ev upd st))) = numbers (db st) \<and>
     pending_authentications (snd (process_update l ev upd st)) = pending_authentications st \<and>
     client_calls (snd (process_update l ev upd st)) = client_calls st \<and>
     (\<not> startswith t (asc ''/start'') \<and> \<not> startswith t (asc ''/help'') \<and>
      t \<noteq> label_add_number \<and> t \<noteq> label_my_numbers \<and> t \<noteq> label_help \<longrightarrow>
        outbox (snd (process_update l ev upd st)) =
          outbox st @ [SendMessage (chat_id (msg_chat msg)) invalid_phone_text None] \<and>
        user_states (snd (process_update l ev upd st)) = user_states st \<and>
        db (snd (process_update l ev upd st)) = db st) \<and>
     (startswith t (asc ''/start'') \<longrightarrow>
        outbox (snd (process_update l ev upd st)) =
          outbox st @
          [SendMessage (chat_id (msg_chat msg))
             (welcome_text (case tu_first_name user of None \<Rightarrow> asc ''User'' | Some n \<Rightarrow> n))
             (Some get_main_keyboard)]) \<and>
     (\<not> startswith t (asc ''/start'') \<and> (startswith t (asc ''/help'') \<or> t = label_help) \<longrightarrow>
        outbox (snd (process_update l ev upd st)) =
          outbox st @ [SendMessage (chat_id (msg_chat msg)) help_text None]) \<and>
     (t = label_add_number \<longrightarrow>
        outbox (snd (process_update l ev upd st)) =
          outbox st @ [SendMessage (chat_id (msg_chat msg)) prompt_phone_text None]) \<and>
     (t = label_my_numbers \<longrightarrow>
        outbox (snd (process_update l ev upd st)) =
          outbox st @
          [SendMessage (chat_id (msg_chat msg)) your_numbers_text
             (Some (get_numbers_keyboard (tu_id user) (db st)))])"
  using assms(5)
  by (auto simp: process_update_fields invalid_text_state [OF assms] add_user_def update_conv')

theorem invalid_phone_text_in_waiting_phone_witness:
  "\<not> startswith (asc ''12345'') (asc ''+'') \<and>
   map_of (user_states st_phone) 7 = Some waiting_phone \<and>
   outbox (snd (process_update sample_lib env_ok (upd_text 5 (asc ''12345'')) st_phone)) =
     [SendMessage 7 invalid_phone_text None] \<and>
   user_states (snd (process_update sample_lib env_ok (upd_text 5 (asc ''12345'')) st_phone)) =
     [(7, waiting_phone)] \<and>
   numbers (db (snd (process_update sample_lib env_ok (upd_text 5 (asc ''12345'')) st_phone))) =
     [] \<and>
   outbox (snd (process_update sample_lib env_ok (upd_text 5 (asc ''/help'')) st_phone)) =
     [SendMessage 7 help_text None]"
proof -
  have m: "upd_message (upd_text 5 x) = Some (text_in (asc ''private'') x)"
    "chat_type (msg_chat (text_in (asc ''private'') x)) = asc ''private''"
    "msg_from (text_in (asc ''private'') x) = Some alice"
    "msg_text (text_in (asc ''private'') x) = Some x"
    "chat_id (msg_chat (text_in (asc ''private'') x)) = 7" for x
    by (simp_all add: upd_text_def text_in_def)
  have s: "map_of (user_states st_phone) (tu_id alice) = Some waiting_phone"
    by (simp add: st_phone_def alice_def)
  have i: "tu_id alice = 7" by (simp add: alice_def)
  have w: "\<not> startswith (asc ''12345'') (asc ''+'')" "\<not> startswith (asc ''/help'') (asc ''+'')"
    "\<not> startswith (asc ''12345'') (asc ''/start'')" "\<not> startswith (asc ''12345'') (asc ''/help'')"
    "asc ''12345'' \<noteq> label_add_number" "asc ''12345'' \<noteq> label_my_numbers"
    "asc ''12345'' \<noteq> label_help"
    "\<not> startswith (asc ''/help'') (asc ''/start'')" "startswith (asc ''/help'') (asc ''/help'')"
    by (simp_all add: startswith_def asc_def label_add_number_def label_my_numbers_def
          label_help_def sym_add_def sym_phone_def sym_info_def)
  have v: "\<not> startswith (asc ''12345'') (asc ''+'') \<or> length (asc ''12345'') < 10"
    "\<not> startswith (asc ''/help'') (asc ''+'') \<or> length (asc ''/help'') < 10"
    using w by simp_all
  have o: "outbox st_phone = []" "user_states st_phone = [(7, waiting_phone)]"
    "numbers (db st_phone) = []"
    by (simp_all add: st_phone_def init_bot_def init_database_def)
  show ?thesis
    using invalid_phone_text_in_waiting_phone [OF m(1) m(2) m(3) m(4) s v(1),
        of sample_lib env_ok]
      invalid_phone_text_in_waiting_phone [OF m(1) m(2) m(3) m(4) s v(2),
        of sample_lib env_ok] w
    by (simp add: m(5) o i)
qed

text \<open>
  C5 as stated fails for texts the dispatcher takes before the state machine: in the
  state \<open>waiting_phone\<close>, \<open>/help\<close> is answered with the help text, not the validation
  message, and \<open>/start\<close> writes the user's row to the store.
\<close>

theorem command_in_waiting_phone_gets_other_reply:
  "map_of (user_states st_phone) 7 = Some waiting_phone \<and>
   \<not> startswith (asc ''/help'') (asc ''+'') \<and>
   outbox (snd (process_update sample_lib env_ok (upd_text 5 (asc ''/help'')) st_phone)) =
     [SendMessage 7 help_text None] \<and>
   help_text \<noteq> invalid_phone_text \<and>
   users (db st_phone) = [] \<and>
   map u_user_id
     (users (db (snd (process_update sample_lib env_ok (upd_text 6 (asc ''/start'')) st_phone)))) =
     [7]"
  by (simp add: process_update_def process_update_try_def upd_text_def text_in_def Let_def
        handle_help_command_def handle_start_command_def send_message_def post_def
        startswith_def asc_def alice_def st_phone_def init_bot_def init_database_def
        env_ok_def add_user_def help_text_def invalid_phone_text_def sym_lock_def
        sym_cross_def)

section \<open>Errors while an update is handled\<close>

lemma process_update_ok: "fst (process_update l ev upd st) = Ok ()"
  by (cases "process_update_try l ev upd st") (auto simp: process_update_def split: res.splits)

lemma process_updates_fold:
  "process_updates l eus st =
     (Ok (), fold (\<lambda>(ev, upd) s. snd (process_update l ev upd s)) eus st)"
proof (induction eus arbitrary: st)
  case Nil
  show ?case by simp
next
  case (Cons x eus)
  obtain ev upd where x: "x = (ev, upd)" by (cases x)
  obtain st1 where p: "process_update l ev upd st = (Ok (), st1)"
    using process_update_ok [of l ev upd st] by (cases "process_update l ev upd st") auto
  show ?case by (simp add: x p Cons.IH)
qed

text \<open>
  C9. \<open>process_update\<close> returns normally for every update, environment and state; the
  loop over a batch therefore runs through all of its updates, each handled in the
  state the previous one left; an exception raised inside the handling of an update is
  logged by \<open>process_update\<close>.
\<close>

theorem process_update_never_raises:
  "fst (process_update l ev upd st) = Ok () \<and>
   process_updates l eus st =
     (Ok (), fold (\<lambda>(ev, upd) s. snd (process_update l ev upd s)) eus st) \<and>
   (fst (process_update_try l ev upd st) = Raise e \<longrightarrow>
      snd (process_update l ev upd st) =
        logger ERROR (asc ''Error processing update: '' @ exn_str e)
          (snd (process_update_try l ev upd st)))"
proof (intro conjI impI)
  show "fst (process_update l ev upd st) = Ok ()"
    by (rule process_update_ok)
  show "process_updates l eus st =
      (Ok (), fold (\<lambda>(ev, upd) s. snd (process_update l ev upd s)) eus st)"
    by (rule process_updates_fold)
  assume "fst (process_update_try l ev upd st) = Raise e"
  then show "snd (process_update l ev upd st) =
      logger ERROR (asc ''Error processing update: '' @ exn_str e)
        (snd (process_update_try l ev upd st))"
    by (cases "process_update_try l ev upd st") (simp add: process_update_def)
qed

theorem process_update_never_raises_witness:
  "fst (process_update_try sample_lib env_ok broken_callback init_bot) = Raise (key_error ''data'') \<and>
   fst (process_update sample_lib env_ok broken_callback init_bot) = Ok () \<and>
   logged (snd (process_update sample_lib env_ok broken_callback init_bot)) =
     [(ERROR, asc ''Error processing update: '' @ exn_str (key_error ''data''))] \<and>
   fst (process_updates sample_lib [(env_ok, broken_callback), (env_ok, group_callback)] init_bot) =
     Ok ()"
proof -
  have t: "process_update_try sample_lib env_ok broken_callback init_bot =
      (Raise (key_error ''data''), init_bot\<lparr>offset := 43\<rparr>)"
    by (simp add: process_update_try_def broken_callback_def handle_callback_query_def)
  have g: "logged (logger lv m (init_bot\<lparr>offset := 43\<rparr>)) = [(lv, m)]" for lv m
    by (simp add: logger_def init_bot_def)
  show ?thesis
    using process_update_never_raises [of sample_lib env_ok broken_callback init_bot
        "[(env_ok, broken_callback), (env_ok, group_callback)]" "key_error ''data''"]
    by (simp add: t g)
qed

section \<open>Updates from chats that are not private\<close>

text \<open>A message from a chat of another kind only moves the offset.\<close>

lemma non_private_message_dropped:
  assumes "upd_message upd = Some msg" and "chat_type (msg_chat msg) \<noteq> asc ''private''"
  shows "process_update l ev upd st = (Ok (), st\<lparr>offset := update_id upd + 1\<rparr>)"
  using assms by (simp add: process_update_def process_update_try_def)

text \<open>
  C6 at a callback query whose message belongs to a group chat: \<open>process_update\<close> answers
  the query and edits the message. \<open>handle_callback_query\<close> has no test of the chat kind.
\<close>

theorem group_callback_is_answered:
  "map_option (\<lambda>q. map_option (\<lambda>m. chat_type (msg_chat m) = asc ''private'') (cq_message q))
     (upd_callback_query group_callback) = Some (Some False) \<and>
   outbox (snd (process_update sample_lib env_ok group_callback init_bot)) =
     [AnswerCallbackQuery (asc ''q1'') [], EditMessageText (- 100) 55 main_menu_text None]"
  by (simp add: process_update_def process_update_try_def group_callback_def
        handle_callback_query_def answer_callback_query_def edit_message_def post_def
        env_ok_def init_bot_def asc_def Let_def)

section \<open>Session names\<close>

lemma digits_value: "foldl (\<lambda>a c. 10 * a + (c - 48)) 0 (digits n) = n"
proof (induction n rule: digits.induct)
  case (1 n)
  show ?case
  proof (cases "n < 10")
    case True
    then show ?thesis by (simp add: digits.simps [of n])
  next
    case False
    with "1" show ?thesis by (simp add: digits.simps [of n])
  qed
qed

lemma digits_inj: "digits m = digits n \<Longrightarrow> m = n"
  by (metis digits_value)

lemma digits_range: "c \<in> set (digits n) \<Longrightarrow> 48 \<le> c \<and> c \<le> 57"
proof (induction n rule: digits.induct)
  case (1 n)
  show ?case
  proof (cases "n < 10")
    case True
    with "1.prems" show ?thesis by (simp add: digits.simps [of n])
  next
    case False
    with "1" show ?thesis by (auto simp: digits.simps [of n])
  qed
qed

lemma digits_not_Nil: "digits n \<noteq> []"
  by (simp add: digits.simps [of n])

lemma str_int_inj: "str_int i = str_int j \<Longrightarrow> i = j"
proof -
  assume eq: "str_int i = str_int j"
  have hd_digit: "hd (digits n) \<noteq> 45" for n
  proof -
    have "hd (digits n) \<in> set (digits n)"
      by (simp add: digits_not_Nil)
    then have "48 \<le> hd (digits n)"
      using digits_range by blast
    then show ?thesis by simp
  qed
  have no_mix: "45 # digits m \<noteq> digits n" for m n
    using hd_digit [of n] by (metis list.sel(1))
  show "i = j"
  proof (cases "i < 0"; cases "j < 0")
    assume "i < 0" "j < 0"
    with eq have "nat (- i) = nat (- j)" by (simp add: str_int_def digits_inj)
    with \<open>i < 0\<close> \<open>j < 0\<close> show ?thesis by simp
  next
    assume "i < 0" "\<not> j < 0"
    with eq no_mix show ?thesis by (simp add: str_int_def)
  next
    assume "\<not> i < 0" "j < 0"
    with eq no_mix [of "nat (- j)" "nat i"] show ?thesis by (simp add: str_int_def)
  next
    assume "\<not> i < 0" "\<not> j < 0"
    with eq have "nat i = nat j" by (simp add: str_int_def digits_inj)
    with \<open>\<not> i < 0\<close> \<open>\<not> j < 0\<close> show ?thesis by simp
  qed
qed

lemma str_int_no_underscore: "95 \<notin> set (str_int i)"
  using digits_range [of 95] by (auto simp: str_int_def)

lemma split_at_first:
  "c \<notin> set a \<Longrightarrow> c \<notin> set b \<Longrightarrow> a @ c # x = b @ c # y \<Longrightarrow> a = b \<and> x = y"
proof (induction a arbitrary: b)
  case Nil
  then show ?case by (cases b) auto
next
  case (Cons h a)
  then show ?case by (cases b) auto
qed

lemma session_key_inj:
  assumes "session_key u p = session_key u' p'"
  shows "u = u' \<and> p = p'"
proof -
  from assms have "str_int u @ 95 # p = str_int u' @ 95 # p'"
    by (simp add: session_key_def asc_def)
  then have "str_int u = str_int u' \<and> p = p'"
    using str_int_no_underscore [of u] str_int_no_underscore [of u']
    by (rule split_at_first [rotated 2])
  then show ?thesis by (simp add: str_int_inj)
qed

text \<open>
  C8. The session name is a function of the pair (user id, phone number), and two
  different pairs get the same name only if the digest takes the same value on their
  two different key texts.
\<close>

theorem session_name_deterministic_injective:
  "(u = u' \<and> p = p' \<longrightarrow> get_session_name l u p = get_session_name l u' p') \<and>
   (get_session_name l u p = get_session_name l u' p' \<longrightarrow>
      (u = u' \<and> p = p') \<or>
      (session_key u p \<noteq> session_key u' p' \<and>
       md5_hexdigest l (session_key u p) = md5_hexdigest l (session_key u' p')))"
proof (intro conjI impI)
  assume "u = u' \<and> p = p'"
  then show "get_session_name l u p = get_session_name l u' p'" by simp
next
  assume "get_session_name l u p = get_session_name l u' p'"
  then have d: "md5_hexdigest l (session_key u p) = md5_hexdigest l (session_key u' p')"
    by (simp add: get_session_name_def)
  show "(u = u' \<and> p = p') \<or>
      (session_key u p \<noteq> session_key u' p' \<and>
       md5_hexdigest l (session_key u p) = md5_hexdigest l (session_key u' p'))"
    using d session_key_inj [of u p u' p'] by blast
qed

theorem session_name_deterministic_injective_witness:
  "get_session_name sample_lib 1 (asc ''+2'') = get_session_name sample_lib 2 (asc ''+1'') \<and>
   session_key 1 (asc ''+2'') \<noteq> session_key 2 (asc ''+1'') \<and>
   md5_hexdigest sample_lib (session_key 1 (asc ''+2'')) =
     md5_hexdigest sample_lib (session_key 2 (asc ''+1''))"
proof -
  have eq: "get_session_name sample_lib 1 (asc ''+2'') = get_session_name sample_lib 2 (asc ''+1'')"
    by (simp add: get_session_name_def sample_lib_def session_key_def str_int_def asc_def
          digits.simps [of "Suc 0"] digits.simps [of 2])
  show ?thesis
    using session_name_deterministic_injective [of 1 2 "asc ''+2''" "asc ''+1''" sample_lib] eq
    by simp
qed

section \<open>What every operation preserves\<close>

lemma bot_inv_fields [simp]:
  "bot_inv (st\<lparr>user_states := us\<rparr>) = bot_inv st"
  "bot_inv (st\<lparr>outbox := ob\<rparr>) = bot_inv st"
  "bot_inv (st\<lparr>offset := off\<rparr>) = bot_inv st"
  "bot_inv (st\<lparr>active_clients := ac\<rparr>) = bot_inv st"
  "bot_inv (logger lv m st) = bot_inv st"
  "bot_inv (called c st) = bot_inv st"
  "bot_inv (snd (post ev a st)) = bot_inv st"
  by (simp_all add: bot_inv_def logger_def called_def post_def)

lemma statuses_ok_add_phone_number:
  "statuses_ok d \<Longrightarrow> statuses_ok (snd (add_phone_number now uid ph d))"
  by (simp add: statuses_ok_def add_phone_number_def Let_def)

lemma statuses_ok_add_user:
  "statuses_ok (add_user now uid un fn ln d) = statuses_ok d"
  by (simp add: statuses_ok_def add_user_def)

lemma statuses_ok_login:
  "statuses_ok d \<Longrightarrow>
   statuses_ok (update_number_status now i (asc ''authenticated'') True
                  (save_session now' uid ph f d))"
  by (auto simp: statuses_ok_def update_number_status_def save_session_def Let_def
        list_all_iff)

lemma bot_inv_store_login: "bot_inv st \<Longrightarrow> bot_inv (store_login ev uid a st)"
  by (simp add: bot_inv_def store_login_db store_login_pending statuses_ok_login
        distinct_delete)

lemma bot_inv_except [simp]:
  "bot_inv (snd (send_code_except e st)) = bot_inv st"
  "bot_inv (snd (verify_code_except e st)) = bot_inv st"
  "bot_inv (snd (verify_2fa_except e st)) = bot_inv st"
  by (cases "exn_cls e"; simp add: send_code_except_def verify_code_except_def
        verify_2fa_except_def)+

lemma bot_inv_register:
  "bot_inv st \<Longrightarrow>
   bot_inv (st\<lparr>pending_authentications := AList.update uid a (pending_authentications st)\<rparr>)"
  by (simp add: bot_inv_def distinct_update)

lemma bot_inv_send_code:
  "bot_inv st \<Longrightarrow> bot_inv (snd (send_code l ev uid ph st))"
  by (simp add: send_code_def Let_def bot_inv_register split: res.splits bool.splits)

lemma bot_inv_verify_code:
  "bot_inv st \<Longrightarrow> bot_inv (snd (verify_code ev uid c st))"
  by (simp add: verify_code_def Let_def bot_inv_store_login split: option.splits res.splits)

lemma bot_inv_verify_2fa_password:
  "bot_inv st \<Longrightarrow> bot_inv (snd (verify_2fa_password ev uid c st))"
  by (simp add: verify_2fa_password_def Let_def bot_inv_store_login
        split: option.splits res.splits)

lemma bot_inv_add_phone:
  "bot_inv st \<Longrightarrow> bot_inv (st\<lparr>db := snd (add_phone_number now uid ph (db st))\<rparr>)"
  by (simp add: bot_inv_def statuses_ok_add_phone_number)

lemma bot_inv_input_phone:
  assumes "bot_inv st"
  shows "bot_inv (snd (input_phone l ev uid chat t st))"
proof -
  let ?st2 = "snd (post ev (SendMessage chat sending_code_text None)
                     (st\<lparr>db := snd (add_phone_number (clock ev) uid t (db st))\<rparr>))"
  have i2: "bot_inv ?st2"
    using assms by (simp add: bot_inv_add_phone)
  have i3: "bot_inv (snd (send_code l ev uid t ?st2))"
    using i2 by (rule bot_inv_send_code)
  obtain ok m st3 where sc: "send_code l ev uid t ?st2 = ((ok, m), st3)"
    by (metis surj_pair)
  with i3 have "bot_inv st3" by simp
  then show ?thesis
    using assms sc
    by (simp add: input_phone_def send_message_def post_def bot_inv_add_phone
          split: res.splits)
qed

lemma bot_inv_input_code:
  assumes "bot_inv st"
  shows "bot_inv (snd (input_code ev uid chat t st))"
proof -
  obtain ok m st1 where vc: "verify_code ev uid t st = ((ok, m), st1)"
    by (metis surj_pair)
  with bot_inv_verify_code [OF assms, of ev uid t] have "bot_inv st1" by simp
  then show ?thesis
    by (simp add: input_code_def vc send_message_def post_def split: res.splits)
qed

lemma bot_inv_input_2fa:
  assumes "bot_inv st"
  shows "bot_inv (snd (input_2fa ev uid chat t st))"
proof -
  obtain ok m st1 where vc: "verify_2fa_password ev uid t st = ((ok, m), st1)"
    by (metis surj_pair)
  with bot_inv_verify_2fa_password [OF assms, of ev uid t] have "bot_inv st1" by simp
  then show ?thesis
    by (simp add: input_2fa_def vc send_message_def post_def split: res.splits)
qed

lemma bot_inv_handle_user_input:
  "bot_inv st \<Longrightarrow> bot_inv (snd (handle_user_input l ev msg st))"
  by (simp add: handle_user_input_def Let_def bot_inv_input_phone bot_inv_input_code
        bot_inv_input_2fa split: option.splits conv_state.splits)


lemma bot_inv_handle_help_command:
  "bot_inv st \<Longrightarrow> bot_inv (snd (handle_help_command ev msg st))"
  by (simp add: handle_help_command_def send_message_def)

lemma bot_inv_handle_start_command:
  "bot_inv st \<Longrightarrow> bot_inv (snd (handle_start_command ev msg st))"
  by (simp add: handle_start_command_def send_message_def bot_inv_def statuses_ok_add_user
        post_def split: option.splits)

lemma bot_inv_handle_text_message:
  "bot_inv st \<Longrightarrow> bot_inv (snd (handle_text_message l ev msg st))"
  by (simp add: handle_text_message_def Let_def send_message_def bot_inv_handle_help_command
        bot_inv_handle_user_input split: option.splits)


lemma bot_inv_requests [simp]:
  "bot_inv (snd (send_message ev chat m k st)) = bot_inv st"
  "bot_inv (snd (edit_message ev chat i m k st)) = bot_inv st"
  "bot_inv (snd (answer_callback_query ev q m st)) = bot_inv st"
  by (simp_all add: send_message_def edit_message_def answer_callback_query_def)

lemma bot_inv_handle_callback_query:
  assumes "bot_inv st"
  shows "bot_inv (snd (handle_callback_query l ev cq st))"
proof (cases "cq_data cq")
  case None
  with assms show ?thesis by (simp add: handle_callback_query_def)
next
  case data: (Some d)
  show ?thesis
  proof (cases "cq_message cq")
    case None
    with assms data show ?thesis by (simp add: handle_callback_query_def)
  next
    case msg: (Some m)
    obtain r st1 where a: "answer_callback_query ev (cq_id cq) [] st = (r, st1)"
      by (metis surj_pair)
    have i1: "bot_inv st1"
      using assms bot_inv_requests(3) [of ev "cq_id cq" "[]" st] by (simp add: a)
    show ?thesis
    proof (cases r)
      case (Raise e)
      with i1 show ?thesis by (simp add: handle_callback_query_def data msg a Let_def)
    next
      case (Ok u)
      with i1 show ?thesis
        by (simp add: handle_callback_query_def data msg a Let_def split: res.splits)
    qed
  qed
qed

lemma bot_inv_process_update_try:
  "bot_inv st \<Longrightarrow> bot_inv (snd (process_update_try l ev upd st))"
  by (simp add: process_update_try_def Let_def bot_inv_handle_start_command
        bot_inv_handle_help_command bot_inv_handle_text_message bot_inv_handle_callback_query
        split: option.splits)

lemma bot_inv_process_update:
  assumes "bot_inv st"
  shows "bot_inv (snd (process_update l ev upd st))"
proof -
  obtain r st1 where t: "process_update_try l ev upd st = (r, st1)"
    by (metis surj_pair)
  with bot_inv_process_update_try [OF assms, of l ev upd] have "bot_inv st1" by simp
  then show ?thesis
    by (cases r) (simp_all add: process_update_def t)
qed

lemma bot_inv_process_updates:
  "bot_inv st \<Longrightarrow> bot_inv (snd (process_updates l eus st))"
proof (induction eus arbitrary: st)
  case Nil
  then show ?case by simp
next
  case (Cons x eus)
  obtain ev upd where x: "x = (ev, upd)" by (cases x)
  have "bot_inv (snd (process_update l ev upd st))"
    using Cons.prems by (rule bot_inv_process_update)
  then have "bot_inv (snd (process_updates l eus (snd (process_update l ev upd st))))"
    by (rule Cons.IH)
  then show ?case
    by (simp add: x process_updates_fold)
qed

lemma bot_inv_init: "bot_inv init_bot"
  by (simp add: bot_inv_def init_bot_def statuses_ok_def init_database_def)


section \<open>The registry\<close>

lemma at_most_one_entry:
  "distinct (map fst xs) \<Longrightarrow> length (filter (\<lambda>e. fst e = k) xs) \<le> 1"
proof (induction xs)
  case Nil
  show ?case by simp
next
  case (Cons x xs)
  show ?case
  proof (cases "fst x = k")
    case True
    with Cons.prems have "k \<notin> fst ` set xs" by auto
    then have "filter (\<lambda>e. fst e = k) xs = []"
      by (auto simp: filter_empty_conv)
    with True show ?thesis by simp
  next
    case False
    with Cons show ?thesis by simp
  qed
qed

lemma except_fails [simp]:
  "fst (fst (send_code_except e st)) = False"
  "fst (fst (verify_code_except e st)) = False"
  "fst (fst (verify_2fa_except e st)) = False"
  by (cases "exn_cls e"; simp add: send_code_except_def verify_code_except_def
        verify_2fa_except_def)+

lemma except_db [simp]:
  "db (snd (send_code_except e st)) = db st"
  "db (snd (verify_code_except e st)) = db st"
  "db (snd (verify_2fa_except e st)) = db st"
  by (cases "exn_cls e"; simp add: send_code_except_def verify_code_except_def
        verify_2fa_except_def logger_def)+

lemma except_pending [simp]:
  "pending_authentications (snd (send_code_except e st)) = pending_authentications st"
  "pending_authentications (snd (verify_code_except e st)) = pending_authentications st"
  "pending_authentications (snd (verify_2fa_except e st)) = pending_authentications st"
  by (cases "exn_cls e"; simp add: send_code_except_def verify_code_except_def
        verify_2fa_except_def logger_def)+

lemma send_code_distinct:
  "distinct (map fst (pending_authentications st)) \<Longrightarrow>
   distinct (map fst (pending_authentications (snd (send_code l ev uid ph st))))"
  by (simp add: send_code_def Let_def logger_def called_def distinct_update
        split: res.splits bool.splits)

lemma send_code_sent:
  assumes "fst (send_code l ev uid ph st) = (True, asc ''Verification code sent successfully'')"
  shows "\<exists>h. tg_connect ev = Ok () \<and> tg_is_user_authorized ev = Ok False \<and>
              tg_send_code_request ev = Ok h"
proof -
  have ne: "asc ''Already authenticated'' \<noteq> asc ''Verification code sent successfully''"
    by (simp add: asc_def)
  have f: "fst (send_code_except e s) \<noteq> (True, m)" for e s m
    using except_fails(1) [of e s] by (metis fst_conv)
  show ?thesis
    using assms ne f
    by (simp add: send_code_def Let_def split: res.splits bool.splits)
qed

lemma send_code_registers:
  assumes "tg_connect ev = Ok ()" and "tg_is_user_authorized ev = Ok False"
    and "tg_send_code_request ev = Ok h"
  shows "pending_authentications (snd (send_code l ev uid ph st)) =
           AList.update uid
             \<lparr>pa_client = TelegramClient (get_session_name l uid ph), pa_phone_number = ph,
               pa_phone_code_hash = h, pa_session_name = get_session_name l uid ph\<rparr>
             (pending_authentications st)"
  using assms by (simp add: send_code_def Let_def logger_def called_def)

lemma send_code_already:
  assumes "fst (send_code l ev uid ph st) = (True, asc ''Already authenticated'')"
  shows "pending_authentications (snd (send_code l ev uid ph st)) = pending_authentications st"
proof -
  have ne: "asc ''Verification code sent successfully'' \<noteq> asc ''Already authenticated''"
    by (simp add: asc_def)
  show ?thesis
    using assms ne
    by (simp add: send_code_def Let_def called_def split: res.splits bool.splits)
qed

lemma send_code_success_texts:
  assumes "fst (fst (send_code l ev uid ph st))"
  shows "snd (fst (send_code l ev uid ph st)) = asc ''Verification code sent successfully'' \<or>
         snd (fst (send_code l ev uid ph st)) = asc ''Already authenticated''"
  using assms
  by (simp add: send_code_def Let_def split: res.splits bool.splits)

text \<open>
  C3, as the program has it. In every state the bot reaches from its initial state,
  whatever updates it is given, the registry has no two entries with one user id, and
  \<open>send_code\<close> keeps that property. \<open>send_code\<close> returns success in two ways. When it
  has sent a code, the user's entry is the new one, and a user who had an entry before
  has the same single place in the registry as before. When it has found the session
  already authorized, no code is requested and the registry is the one it started with,
  the user's earlier entry included.
\<close>

theorem registry_one_entry_per_user:
  "distinct (map fst (pending_authentications (snd (process_updates l eus init_bot)))) \<and>
   length (filter (\<lambda>e. fst e = user_id)
             (pending_authentications (snd (process_updates l eus init_bot)))) \<le> 1 \<and>
   (distinct (map fst (pending_authentications st)) \<longrightarrow>
      distinct (map fst (pending_authentications (snd (send_code l ev user_id ph st))))) \<and>
   (fst (send_code l ev user_id ph st) = (True, asc ''Verification code sent successfully'') \<longrightarrow>
      (\<exists>h. tg_send_code_request ev = Ok h \<and>
           map_of (pending_authentications (snd (send_code l ev user_id ph st))) user_id =
             Some \<lparr>pa_client = TelegramClient (get_session_name l user_id ph),
                   pa_phone_number = ph, pa_phone_code_hash = h,
                   pa_session_name = get_session_name l user_id ph\<rparr>) \<and>
      (user_id \<in> fst ` set (pending_authentications st) \<longrightarrow>
         map fst (pending_authentications (snd (send_code l ev user_id ph st))) =
           map fst (pending_authentications st))) \<and>
   (fst (send_code l ev user_id ph st) = (True, asc ''Already authenticated'') \<longrightarrow>
      pending_authentications (snd (send_code l ev user_id ph st)) =
        pending_authentications st) \<and>
   (fst (fst (send_code l ev user_id ph st)) \<longrightarrow>
      snd (fst (send_code l ev user_id ph st)) = asc ''Verification code sent successfully'' \<or>
      snd (fst (send_code l ev user_id ph st)) = asc ''Already authenticated'')"
proof (intro conjI impI)
  have "bot_inv (snd (process_updates l eus init_bot))"
    using bot_inv_init by (rule bot_inv_process_updates)
  then show d: "distinct (map fst (pending_authentications (snd (process_updates l eus init_bot))))"
    by (simp add: bot_inv_def)
  then show "length (filter (\<lambda>e. fst e = user_id)
      (pending_authentications (snd (process_updates l eus init_bot)))) \<le> 1"
    by (rule at_most_one_entry)
next
  assume "distinct (map fst (pending_authentications st))"
  then show "distinct (map fst (pending_authentications (snd (send_code l ev user_id ph st))))"
    by (rule send_code_distinct)
next
  assume a: "fst (send_code l ev user_id ph st) =
      (True, asc ''Verification code sent successfully'')"
  from send_code_sent [OF a] obtain h where h: "tg_connect ev = Ok ()"
    "tg_is_user_authorized ev = Ok False" "tg_send_code_request ev = Ok h"
    by blast
  note r = send_code_registers [OF h, of l user_id ph st]
  show "\<exists>h. tg_send_code_request ev = Ok h \<and>
      map_of (pending_authentications (snd (send_code l ev user_id ph st))) user_id =
        Some \<lparr>pa_client = TelegramClient (get_session_name l user_id ph),
              pa_phone_number = ph, pa_phone_code_hash = h,
              pa_session_name = get_session_name l user_id ph\<rparr>"
    using h(3) by (simp add: r update_conv')
  assume "user_id \<in> fst ` set (pending_authentications st)"
  then show "map fst (pending_authentications (snd (send_code l ev user_id ph st))) =
      map fst (pending_authentications st)"
    by (simp add: r update_keys)
next
  assume "fst (send_code l ev user_id ph st) = (True, asc ''Already authenticated'')"
  then show "pending_authentications (snd (send_code l ev user_id ph st)) =
      pending_authentications st"
    by (rule send_code_already)
next
  assume "fst (fst (send_code l ev user_id ph st))"
  then show "snd (fst (send_code l ev user_id ph st)) =
      asc ''Verification code sent successfully'' \<or>
      snd (fst (send_code l ev user_id ph st)) = asc ''Already authenticated''"
    by (rule send_code_success_texts)
qed

theorem registry_one_entry_per_user_witness:
  "map_of (pending_authentications st_code) 7 = Some sample_auth \<and>
   fst (send_code sample_lib env_ok 7 (asc ''+15557654321'') st_code) =
     (True, asc ''Verification code sent successfully'') \<and>
   map_of (pending_authentications
             (snd (send_code sample_lib env_ok 7 (asc ''+15557654321'') st_code))) 7 =
     Some \<lparr>pa_client = TelegramClient (get_session_name sample_lib 7 (asc ''+15557654321'')),
           pa_phone_number = asc ''+15557654321'', pa_phone_code_hash = asc ''hash2'',
           pa_session_name = get_session_name sample_lib 7 (asc ''+15557654321'')\<rparr> \<and>
   map fst (pending_authentications
              (snd (send_code sample_lib env_ok 7 (asc ''+15557654321'') st_code))) = [7] \<and>
   fst (send_code sample_lib env_already_authorized 7 (asc ''+15557654321'') st_code) =
     (True, asc ''Already authenticated'') \<and>
   pending_authentications
     (snd (send_code sample_lib env_already_authorized 7 (asc ''+15557654321'') st_code)) =
     [(7, sample_auth)]"
proof -
  have p: "pending_authentications st_code = [(7, sample_auth)]"
    by (simp add: st_code_def)
  have s: "fst (send_code sample_lib env_ok 7 (asc ''+15557654321'') st_code) =
      (True, asc ''Verification code sent successfully'')"
    by (simp add: send_code_def env_ok_def Let_def)
  have a: "fst (send_code sample_lib env_already_authorized 7 (asc ''+15557654321'') st_code) =
      (True, asc ''Already authenticated'')"
    by (simp add: send_code_def env_already_authorized_def env_ok_def Let_def)
  have e: "tg_send_code_request env_ok = Ok (asc ''hash2'')"
    by (simp add: env_ok_def)
  show ?thesis
    using registry_one_entry_per_user [of sample_lib "[]" 7 st_code env_ok "asc ''+15557654321''"] s
      registry_one_entry_per_user [of sample_lib "[]" 7 st_code env_already_authorized
        "asc ''+15557654321''"] a
    by (simp add: p e)
qed

text \<open>
  C3 as stated fails on the second way of success: \<open>send_code\<close> returns
  \<open>(True, Already authenticated)\<close> for a user with a pending entry and the old entry, for
  the earlier phone number, is still the one in the registry. This holds for the single
  call, and for a conversation run from the initial state in which the second phone
  number is registered in the store while the registry keeps the first.
\<close>

theorem already_authenticated_keeps_old_entry:
  "fst (send_code sample_lib env_already_authorized 7 (asc ''+15557654321'') st_code) =
     (True, asc ''Already authenticated'') \<and>
   map_of (pending_authentications
             (snd (send_code sample_lib env_already_authorized 7 (asc ''+15557654321'')
                     st_code))) 7 = Some sample_auth \<and>
   pa_phone_number sample_auth = asc ''+15551234567'' \<and>
   pending_authentications (snd (process_updates sample_lib repeat_conversation init_bot)) =
     [(7, \<lparr>pa_client = TelegramClient (get_session_name sample_lib 7 (asc ''+15551234567'')),
            pa_phone_number = asc ''+15551234567'', pa_phone_code_hash = asc ''hash2'',
            pa_session_name = get_session_name sample_lib 7 (asc ''+15551234567'')\<rparr>)] \<and>
   user_states (snd (process_updates sample_lib repeat_conversation init_bot)) = [] \<and>
   map n_phone_number
     (numbers (db (snd (process_updates sample_lib repeat_conversation init_bot)))) =
     [asc ''+15551234567'', asc ''+15557654321'']"
proof -
  have step: "fst (send_code sample_lib env_already_authorized 7 (asc ''+15557654321'') st_code) =
       (True, asc ''Already authenticated'') \<and>
     map_of (pending_authentications
               (snd (send_code sample_lib env_already_authorized 7 (asc ''+15557654321'')
                       st_code))) 7 = Some sample_auth \<and>
     pa_phone_number sample_auth = asc ''+15551234567''"
    by (simp add: send_code_def env_already_authorized_def env_ok_def Let_def called_def
          st_code_def init_bot_def sample_auth_def)
  have run: "pending_authentications
       (snd (process_updates sample_lib repeat_conversation init_bot)) =
       [(7, \<lparr>pa_client = TelegramClient (get_session_name sample_lib 7 (asc ''+15551234567'')),
              pa_phone_number = asc ''+15551234567'', pa_phone_code_hash = asc ''hash2'',
              pa_session_name = get_session_name sample_lib 7 (asc ''+15551234567'')\<rparr>)] \<and>
     user_states (snd (process_updates sample_lib repeat_conversation init_bot)) = [] \<and>
     map n_phone_number
       (numbers (db (snd (process_updates sample_lib repeat_conversation init_bot)))) =
       [asc ''+15551234567'', asc ''+15557654321'']"
    by (simp add: repeat_conversation_def two_factor_conversation_def process_update_def
          process_update_try_def upd_text_def text_in_def handle_text_message_def
          handle_user_input_def input_phone_def input_code_def input_2fa_def send_code_def
          verify_code_def verify_code_except_def verify_2fa_password_def verify_2fa_except_def
          Let_def startswith_def label_add_number_def label_my_numbers_def label_help_def
          sym_add_def sym_phone_def sym_info_def add_phone_number_def asc_def alice_def
          init_bot_def send_message_def post_def env_ok_def env_2fa_needed_def
          env_bad_password_def env_already_authorized_def called_def logger_def
          init_database_def)
  from step run show ?thesis by simp
qed

section \<open>The status of a phone number\<close>

lemma send_code_db: "db (snd (send_code l ev uid ph st)) = db st"
  by (simp add: send_code_def Let_def logger_def called_def split: res.splits bool.splits)

lemma verify_code_failure_db:
  "\<not> fst (fst (verify_code ev uid c st)) \<Longrightarrow> db (snd (verify_code ev uid c st)) = db st"
  by (simp add: verify_code_def Let_def called_def split: option.splits res.splits)

lemma verify_2fa_failure_db:
  "\<not> fst (fst (verify_2fa_password ev uid c st)) \<Longrightarrow>
   db (snd (verify_2fa_password ev uid c st)) = db st"
  by (simp add: verify_2fa_password_def Let_def called_def split: option.splits res.splits)

text \<open>
  C10. In every state the bot reaches from its initial state, each row of \<open>numbers\<close>
  has the status \<open>pending\<close> or \<open>authenticated\<close>. \<open>send_code\<close> never changes the store;
  \<open>verify_code\<close> and \<open>verify_2fa_password\<close> leave it as it was whenever they do not
  return success.
\<close>

theorem status_pending_or_authenticated:
  "statuses_ok (db (snd (process_updates l eus init_bot))) \<and>
   db (snd (send_code l ev user_id ph st)) = db st \<and>
   (\<not> fst (fst (verify_code ev user_id c st)) \<longrightarrow>
      db (snd (verify_code ev user_id c st)) = db st) \<and>
   (\<not> fst (fst (verify_2fa_password ev user_id c st)) \<longrightarrow>
      db (snd (verify_2fa_password ev user_id c st)) = db st)"
proof (intro conjI impI)
  have "bot_inv (snd (process_updates l eus init_bot))"
    using bot_inv_init by (rule bot_inv_process_updates)
  then show "statuses_ok (db (snd (process_updates l eus init_bot)))"
    by (simp add: bot_inv_def)
qed (simp_all add: send_code_db verify_code_failure_db verify_2fa_failure_db)

theorem status_pending_or_authenticated_witness:
  "\<not> fst (fst (verify_code (env_provider_error (asc ''boom'')) 7 (asc ''12345'') st_code)) \<and>
   db (snd (verify_code (env_provider_error (asc ''boom'')) 7 (asc ''12345'') st_code)) =
     sample_numbers \<and>
   \<not> fst (fst (verify_2fa_password env_bad_password 7 (asc ''hunter2'') st_2fa)) \<and>
   db (snd (verify_2fa_password env_bad_password 7 (asc ''hunter2'') st_2fa)) = sample_numbers \<and>
   statuses_ok sample_numbers"
proof -
  have a: "\<not> fst (fst (verify_code (env_provider_error (asc ''boom'')) 7 (asc ''12345'') st_code))"
    by (simp add: verify_code_def st_code_def env_provider_error_def Let_def)
  have b: "\<not> fst (fst (verify_2fa_password env_bad_password 7 (asc ''hunter2'') st_2fa))"
    by (simp add: verify_2fa_password_def st_2fa_def env_bad_password_def Let_def)
  have d: "db st_code = sample_numbers" "db st_2fa = sample_numbers"
    by (simp_all add: st_code_def st_2fa_def)
  have s: "statuses_ok sample_numbers"
    by (simp add: statuses_ok_def sample_numbers_def)
  show ?thesis
    using status_pending_or_authenticated [of sample_lib "[]" "env_provider_error (asc ''boom'')"
        7 "asc ''12345''" st_code "asc ''12345''"]
      status_pending_or_authenticated [of sample_lib "[]" env_bad_password
        7 "asc ''hunter2''" st_2fa "asc ''hunter2''"] a b s
    by (simp add: d)
qed

section \<open>What the user is told when the provider fails\<close>

lemma send_code_except_result:
  "send_code_except e s =
     ((False,
       case exn_cls e of
         PhoneNumberInvalidError \<Rightarrow> asc ''Invalid phone number format''
       | FloodWaitError n \<Rightarrow> asc ''Too many attempts. Wait '' @ str_int n @ asc '' seconds''
       | _ \<Rightarrow> asc ''Error: '' @ exn_str e),
      case exn_cls e of
        PhoneNumberInvalidError \<Rightarrow> s
      | FloodWaitError n \<Rightarrow> s
      | _ \<Rightarrow> logger ERROR (asc ''Error sending code: '' @ exn_str e) s)"
  by (cases "exn_cls e") (simp_all add: send_code_except_def)

lemma send_code_failure:
  assumes "tg_connect ev = Raise e \<or>
           tg_connect ev = Ok () \<and> tg_is_user_authorized ev = Raise e \<or>
           tg_connect ev = Ok () \<and> tg_is_user_authorized ev = Ok True \<and>
             tg_disconnect ev = Raise e \<or>
           tg_connect ev = Ok () \<and> tg_is_user_authorized ev = Ok False \<and>
             tg_send_code_request ev = Raise e"
  shows "fst (send_code l ev uid ph st) = fst (send_code_except e st)"
    and "logged (snd (send_code l ev uid ph st)) = logged (snd (send_code_except e st))"
    and "outbox (snd (send_code l ev uid ph st)) = outbox st"
  using assms
  by (auto simp: send_code_def Let_def send_code_except_result called_def logger_def
        split: exn_class.splits)

lemma not_2fa_marker [simp]:
  "asc ''Invalid verification code'' \<noteq> asc ''2FA_REQUIRED''"
  "asc ''Verification code expired'' \<noteq> asc ''2FA_REQUIRED''"
  "asc ''Error: '' @ x \<noteq> asc ''2FA_REQUIRED''"
  by (simp_all add: asc_def)

lemma input_code_failure:
  assumes "map_of (pending_authentications st) uid = Some a"
    and "tg_sign_in_code ev = Raise e"
  shows "outbox (snd (input_code ev uid chat t st)) =
           outbox st @
           [SendMessage chat
              (case exn_cls e of
                 SessionPasswordNeededError \<Rightarrow> enter_2fa_text
               | PhoneCodeInvalidError \<Rightarrow> failure_text (asc ''Invalid verification code'')
               | PhoneCodeExpiredError \<Rightarrow> failure_text (asc ''Verification code expired'')
               | _ \<Rightarrow> failure_text (asc ''Error: '' @ exn_str e))
              None]"
    and "logged (snd (input_code ev uid chat t st)) =
           logged st @
           (case exn_cls e of
              SessionPasswordNeededError \<Rightarrow> []
            | PhoneCodeInvalidError \<Rightarrow> []
            | PhoneCodeExpiredError \<Rightarrow> []
            | _ \<Rightarrow> [(ERROR, asc ''Error verifying code: '' @ exn_str e)])"
  using assms
  by (cases "exn_cls e";
      simp add: input_code_def verify_code_def verify_code_except_def Let_def
        send_message_def post_def called_def logger_def)+

lemma input_2fa_failure:
  assumes "map_of (pending_authentications st) uid = Some a"
    and "tg_sign_in_password ev = Raise e"
  shows "outbox (snd (input_2fa ev uid chat t st)) =
           outbox st @
           [SendMessage chat
              (sym_cross @ asc '' '' @
               (case exn_cls e of
                  PasswordHashInvalidError \<Rightarrow> asc ''Invalid 2FA password''
                | _ \<Rightarrow> asc ''Error: '' @ exn_str e))
              (Some get_main_keyboard)]"
    and "logged (snd (input_2fa ev uid chat t st)) =
           logged st @
           (case exn_cls e of
              PasswordHashInvalidError \<Rightarrow> []
            | _ \<Rightarrow> [(ERROR, asc ''Error with 2FA: '' @ exn_str e)])"
  using assms
  by (cases "exn_cls e"; cases "transport ev (length (outbox st))";
      simp add: input_2fa_def verify_2fa_password_def verify_2fa_except_def Let_def
        send_message_def post_def called_def logger_def)+

lemma input_phone_failure:
  assumes "startswith t (asc ''+'')" and "\<not> length t < 10"
    and "transport ev (length (outbox st)) = Ok ()"
    and "tg_connect ev = Raise e \<or>
         tg_connect ev = Ok () \<and> tg_is_user_authorized ev = Raise e \<or>
         tg_connect ev = Ok () \<and> tg_is_user_authorized ev = Ok True \<and>
           tg_disconnect ev = Raise e \<or>
         tg_connect ev = Ok () \<and> tg_is_user_authorized ev = Ok False \<and>
           tg_send_code_request ev = Raise e"
  shows "outbox (snd (input_phone l ev uid chat t st)) =
           outbox st @
           [SendMessage chat sending_code_text None,
            SendMessage chat
              (failure_text
                 (case exn_cls e of
                    PhoneNumberInvalidError \<Rightarrow> asc ''Invalid phone number format''
                  | FloodWaitError n \<Rightarrow>
                      asc ''Too many attempts. Wait '' @ str_int n @ asc '' seconds''
                  | _ \<Rightarrow> asc ''Error: '' @ exn_str e))
              (Some get_main_keyboard)]"
proof -
  let ?st2 = "st\<lparr>db := snd (add_phone_number (clock ev) uid t (db st)),
                  outbox := outbox st @ [SendMessage chat sending_code_text None]\<rparr>"
  obtain r st3 where sc: "send_code l ev uid t ?st2 = (r, st3)"
    by (metis surj_pair)
  note f = send_code_failure [OF assms(4), of l uid t ?st2]
  have r: "r = fst (send_code_except e ?st2)"
    using f(1) by (simp add: sc)
  have o: "outbox st3 = outbox st @ [SendMessage chat sending_code_text None]"
    using f(3) by (simp add: sc)
  show ?thesis
    using assms(1-3)
    by (cases "transport ev (length (outbox st3))")
      (simp_all add: input_phone_def send_message_def post_def sc r o send_code_except_result)
qed


lemma input_phone_failure_log:
  assumes "startswith t (asc ''+'')" and "\<not> length t < 10"
    and "transport ev (length (outbox st)) = Ok ()"
    and "tg_connect ev = Raise e \<or>
         tg_connect ev = Ok () \<and> tg_is_user_authorized ev = Raise e \<or>
         tg_connect ev = Ok () \<and> tg_is_user_authorized ev = Ok True \<and>
           tg_disconnect ev = Raise e \<or>
         tg_connect ev = Ok () \<and> tg_is_user_authorized ev = Ok False \<and>
           tg_send_code_request ev = Raise e"
  shows "logged (snd (input_phone l ev uid chat t st)) =
           logged st @
           (case exn_cls e of
              PhoneNumberInvalidError \<Rightarrow> []
            | FloodWaitError n \<Rightarrow> []
            | _ \<Rightarrow> [(ERROR, asc ''Error sending code: '' @ exn_str e)])"
proof -
  let ?st2 = "st\<lparr>db := snd (add_phone_number (clock ev) uid t (db st)),
                  outbox := outbox st @ [SendMessage chat sending_code_text None]\<rparr>"
  obtain r st3 where sc: "send_code l ev uid t ?st2 = (r, st3)"
    by (metis surj_pair)
  note f = send_code_failure [OF assms(4), of l uid t ?st2]
  have r: "r = fst (send_code_except e ?st2)"
    using f(1) by (simp add: sc)
  have g: "logged st3 =
      logged st @
      (case exn_cls e of
         PhoneNumberInvalidError \<Rightarrow> []
       | FloodWaitError n \<Rightarrow> []
       | _ \<Rightarrow> [(ERROR, asc ''Error sending code: '' @ exn_str e)])"
    using f(2) by (cases "exn_cls e") (simp_all add: sc send_code_except_result logger_def)
  show ?thesis
    using assms(1-3)
    by (cases "transport ev (length (outbox st3))")
      (simp_all add: input_phone_def send_message_def post_def sc r g send_code_except_result)
qed

text \<open>
  C7, as the program has it. When the provider fails during \<open>send_code\<close>, \<open>verify_code\<close>
  or \<open>verify_2fa_password\<close>, the reply posted to the user is a fixed text if the class
  of the exception is one the step names (with the seconds of a \<open>FloodWaitError\<close>), and
  nothing is logged; for every other exception the reply is \<open>Error:\<close> followed by
  \<open>str(e)\<close>, and the same text goes to the log.
\<close>

theorem provider_failure_replies:
  assumes "msg_from msg = Some user" and "msg_text msg = Some t"
  shows
    "(map_of (user_states st) (tu_id user) = Some waiting_phone \<and>
      startswith t (asc ''+'') \<and> \<not> length t < 10 \<and>
      transport ev (length (outbox st)) = Ok () \<and>
      (tg_connect ev = Raise e \<or>
       tg_connect ev = Ok () \<and> tg_is_user_authorized ev = Raise e \<or>
       tg_connect ev = Ok () \<and> tg_is_user_authorized ev = Ok True \<and>
         tg_disconnect ev = Raise e \<or>
       tg_connect ev = Ok () \<and> tg_is_user_authorized ev = Ok False \<and>
         tg_send_code_request ev = Raise e) \<longrightarrow>
        outbox (snd (handle_user_input l ev msg st)) =
          outbox st @
          [SendMessage (chat_id (msg_chat msg)) sending_code_text None,
           SendMessage (chat_id (msg_chat msg))
             (failure_text
                (case exn_cls e of
                   PhoneNumberInvalidError \<Rightarrow> asc ''Invalid phone number format''
                 | FloodWaitError n \<Rightarrow>
                     asc ''Too many attempts. Wait '' @ str_int n @ asc '' seconds''
                 | _ \<Rightarrow> asc ''Error: '' @ exn_str e))
             (Some get_main_keyboard)] \<and>
        logged (snd (handle_user_input l ev msg st)) =
          logged st @
          (case exn_cls e of
             PhoneNumberInvalidError \<Rightarrow> []
           | FloodWaitError n \<Rightarrow> []
           | _ \<Rightarrow> [(ERROR, asc ''Error sending code: '' @ exn_str e)])) \<and>
     (map_of (user_states st) (tu_id user) = Some waiting_code \<and>
      map_of (pending_authentications st) (tu_id user) = Some a \<and>
      tg_sign_in_code ev = Raise e \<longrightarrow>
        outbox (snd (handle_user_input l ev msg st)) =
          outbox st @
          [SendMessage (chat_id (msg_chat msg))
             (case exn_cls e of
                SessionPasswordNeededError \<Rightarrow> enter_2fa_text
              | PhoneCodeInvalidError \<Rightarrow> failure_text (asc ''Invalid verification code'')
              | PhoneCodeExpiredError \<Rightarrow> failure_text (asc ''Verification code expired'')
              | _ \<Rightarrow> failure_text (asc ''Error: '' @ exn_str e))
             None] \<and>
        logged (snd (handle_user_input l ev msg st)) =
          logged st @
          (case exn_cls e of
             SessionPasswordNeededError \<Rightarrow> []
           | PhoneCodeInvalidError \<Rightarrow> []
           | PhoneCodeExpiredError \<Rightarrow> []
           | _ \<Rightarrow> [(ERROR, asc ''Error verifying code: '' @ exn_str e)])) \<and>
     (map_of (user_states st) (tu_id user) = Some waiting_2fa \<and>
      map_of (pending_authentications st) (tu_id user) = Some a \<and>
      tg_sign_in_password ev = Raise e \<longrightarrow>
        outbox (snd (handle_user_input l ev msg st)) =
          outbox st @
          [SendMessage (chat_id (msg_chat msg))
             (sym_cross @ asc '' '' @
              (case exn_cls e of
                 PasswordHashInvalidError \<Rightarrow> asc ''Invalid 2FA password''
               | _ \<Rightarrow> asc ''Error: '' @ exn_str e))
             (Some get_main_keyboard)] \<and>
        logged (snd (handle_user_input l ev msg st)) =
          logged st @
          (case exn_cls e of
             PasswordHashInvalidError \<Rightarrow> []
           | _ \<Rightarrow> [(ERROR, asc ''Error with 2FA: '' @ exn_str e)]))"
proof (intro conjI impI)
  assume h: "map_of (user_states st) (tu_id user) = Some waiting_phone \<and>
      startswith t (asc ''+'') \<and> \<not> length t < 10 \<and>
      transport ev (length (outbox st)) = Ok () \<and>
      (tg_connect ev = Raise e \<or>
       tg_connect ev = Ok () \<and> tg_is_user_authorized ev = Raise e \<or>
       tg_connect ev = Ok () \<and> tg_is_user_authorized ev = Ok True \<and>
         tg_disconnect ev = Raise e \<or>
       tg_connect ev = Ok () \<and> tg_is_user_authorized ev = Ok False \<and>
         tg_send_code_request ev = Raise e)"
  then have hu: "handle_user_input l ev msg st =
      input_phone l ev (tu_id user) (chat_id (msg_chat msg)) t st"
    by (simp add: handle_user_input_state [OF assms])
  from h have 1: "startswith t (asc ''+'')" and 2: "\<not> length t < 10"
    and 3: "transport ev (length (outbox st)) = Ok ()"
    and 4: "tg_connect ev = Raise e \<or>
       tg_connect ev = Ok () \<and> tg_is_user_authorized ev = Raise e \<or>
       tg_connect ev = Ok () \<and> tg_is_user_authorized ev = Ok True \<and>
         tg_disconnect ev = Raise e \<or>
       tg_connect ev = Ok () \<and> tg_is_user_authorized ev = Ok False \<and>
         tg_send_code_request ev = Raise e"
    by simp_all
  show "outbox (snd (handle_user_input l ev msg st)) =
      outbox st @
      [SendMessage (chat_id (msg_chat msg)) sending_code_text None,
       SendMessage (chat_id (msg_chat msg))
         (failure_text
            (case exn_cls e of
               PhoneNumberInvalidError \<Rightarrow> asc ''Invalid phone number format''
             | FloodWaitError n \<Rightarrow>
                 asc ''Too many attempts. Wait '' @ str_int n @ asc '' seconds''
             | _ \<Rightarrow> asc ''Error: '' @ exn_str e))
         (Some get_main_keyboard)]"
    unfolding hu by (rule input_phone_failure [OF 1 2 3 4])
  show "logged (snd (handle_user_input l ev msg st)) =
      logged st @
      (case exn_cls e of
         PhoneNumberInvalidError \<Rightarrow> []
       | FloodWaitError n \<Rightarrow> []
       | _ \<Rightarrow> [(ERROR, asc ''Error sending code: '' @ exn_str e)])"
    unfolding hu by (rule input_phone_failure_log [OF 1 2 3 4])
next
  assume h: "map_of (user_states st) (tu_id user) = Some waiting_code \<and>
      map_of (pending_authentications st) (tu_id user) = Some a \<and>
      tg_sign_in_code ev = Raise e"
  then have hu: "handle_user_input l ev msg st =
      input_code ev (tu_id user) (chat_id (msg_chat msg)) t st"
    by (simp add: handle_user_input_state [OF assms])
  from h have p: "map_of (pending_authentications st) (tu_id user) = Some a"
    and r: "tg_sign_in_code ev = Raise e"
    by simp_all
  show "outbox (snd (handle_user_input l ev msg st)) =
      outbox st @
      [SendMessage (chat_id (msg_chat msg))
         (case exn_cls e of
            SessionPasswordNeededError \<Rightarrow> enter_2fa_text
          | PhoneCodeInvalidError \<Rightarrow> failure_text (asc ''Invalid verification code'')
          | PhoneCodeExpiredError \<Rightarrow> failure_text (asc ''Verification code expired'')
          | _ \<Rightarrow> failure_text (asc ''Error: '' @ exn_str e))
         None]"
    unfolding hu by (rule input_code_failure(1) [OF p r])
  show "logged (snd (handle_user_input l ev msg st)) =
      logged st @
      (case exn_cls e of
         SessionPasswordNeededError \<Rightarrow> []
       | PhoneCodeInvalidError \<Rightarrow> []
       | PhoneCodeExpiredError \<Rightarrow> []
       | _ \<Rightarrow> [(ERROR, asc ''Error verifying code: '' @ exn_str e)])"
    unfolding hu by (rule input_code_failure(2) [OF p r])
next
  assume h: "map_of (user_states st) (tu_id user) = Some waiting_2fa \<and>
      map_of (pending_authentications st) (tu_id user) = Some a \<and>
      tg_sign_in_password ev = Raise e"
  then have hu: "handle_user_input l ev msg st =
      input_2fa ev (tu_id user) (chat_id (msg_chat msg)) t st"
    by (simp add: handle_user_input_state [OF assms])
  from h have p: "map_of (pending_authentications st) (tu_id user) = Some a"
    and r: "tg_sign_in_password ev = Raise e"
    by simp_all
  show "outbox (snd (handle_user_input l ev msg st)) =
      outbox st @
      [SendMessage (chat_id (msg_chat msg))
         (sym_cross @ asc '' '' @
          (case exn_cls e of
             PasswordHashInvalidError \<Rightarrow> asc ''Invalid 2FA password''
           | _ \<Rightarrow> asc ''Error: '' @ exn_str e))
         (Some get_main_keyboard)]"
    unfolding hu by (rule input_2fa_failure(1) [OF p r])
  show "logged (snd (handle_user_input l ev msg st)) =
      logged st @
      (case exn_cls e of
         PasswordHashInvalidError \<Rightarrow> []
       | _ \<Rightarrow> [(ERROR, asc ''Error with 2FA: '' @ exn_str e)])"
    unfolding hu by (rule input_2fa_failure(2) [OF p r])
qed

theorem provider_failure_replies_witness:
  "outbox (snd (handle_user_input sample_lib env_flood_wait
                  (text_in (asc ''private'') (asc ''+15551234567'')) st_phone)) =
     [SendMessage 7 sending_code_text None,
      SendMessage 7 (failure_text (asc ''Too many attempts. Wait '' @ str_int 30 @ asc '' seconds''))
        (Some get_main_keyboard)] \<and>
   outbox (snd (handle_user_input sample_lib (env_provider_error (asc ''boom''))
                  (text_in (asc ''private'') (asc ''12345'')) st_code)) =
     [SendMessage 7 (failure_text (asc ''Error: '' @ asc ''boom'')) None] \<and>
   logged (snd (handle_user_input sample_lib (env_provider_error (asc ''boom''))
                  (text_in (asc ''private'') (asc ''12345'')) st_code)) =
     [(ERROR, asc ''Error verifying code: '' @ asc ''boom'')] \<and>
   outbox (snd (handle_user_input sample_lib env_bad_password
                  (text_in (asc ''private'') (asc ''hunter2'')) st_2fa)) =
     [SendMessage 7 (sym_cross @ asc '' '' @ asc ''Invalid 2FA password'')
        (Some get_main_keyboard)]"
proof -
  have m: "msg_from (text_in (asc ''private'') x) = Some alice"
    "msg_text (text_in (asc ''private'') x) = Some x"
    "chat_id (msg_chat (text_in (asc ''private'') x)) = 7" for x
    by (simp_all add: text_in_def)
  have a: "map_of (user_states st_phone) (tu_id alice) = Some waiting_phone \<and>
      startswith (asc ''+15551234567'') (asc ''+'') \<and> \<not> length (asc ''+15551234567'') < 10 \<and>
      transport env_flood_wait (length (outbox st_phone)) = Ok () \<and>
      (tg_connect env_flood_wait =
         Raise (Exn (FloodWaitError 30) (asc ''A wait of 30 seconds is required'')) \<or>
       tg_connect env_flood_wait = Ok () \<and>
         tg_is_user_authorized env_flood_wait =
           Raise (Exn (FloodWaitError 30) (asc ''A wait of 30 seconds is required'')) \<or>
       tg_connect env_flood_wait = Ok () \<and> tg_is_user_authorized env_flood_wait = Ok True \<and>
         tg_disconnect env_flood_wait =
           Raise (Exn (FloodWaitError 30) (asc ''A wait of 30 seconds is required'')) \<or>
       tg_connect env_flood_wait = Ok () \<and> tg_is_user_authorized env_flood_wait = Ok False \<and>
         tg_send_code_request env_flood_wait =
           Raise (Exn (FloodWaitError 30) (asc ''A wait of 30 seconds is required'')))"
    by (simp add: st_phone_def alice_def init_bot_def env_flood_wait_def env_ok_def
          startswith_def asc_def)
  have b: "map_of (user_states st_code) (tu_id alice) = Some waiting_code \<and>
      map_of (pending_authentications st_code) (tu_id alice) = Some sample_auth \<and>
      tg_sign_in_code (env_provider_error (asc ''boom'')) =
        Raise (Exn OtherException (asc ''boom''))"
    by (simp add: st_code_def alice_def env_provider_error_def)
  have c: "map_of (user_states st_2fa) (tu_id alice) = Some waiting_2fa \<and>
      map_of (pending_authentications st_2fa) (tu_id alice) = Some sample_auth \<and>
      tg_sign_in_password env_bad_password =
        Raise (Exn PasswordHashInvalidError (asc ''The password is invalid''))"
    by (simp add: st_2fa_def alice_def env_bad_password_def)
  have o: "outbox st_phone = []" "outbox st_code = []" "outbox st_2fa = []"
    "logged st_code = []"
    by (simp_all add: st_phone_def st_code_def st_2fa_def init_bot_def)
  show ?thesis
    using provider_failure_replies [OF m(1) m(2), where st = st_phone and ev = env_flood_wait
        and l = sample_lib
        and e = "Exn (FloodWaitError 30) (asc ''A wait of 30 seconds is required'')",
        of "asc ''+15551234567''"] a
      provider_failure_replies [OF m(1) m(2), where st = st_code
        and ev = "env_provider_error (asc ''boom'')" and l = sample_lib
        and e = "Exn OtherException (asc ''boom'')" and a = sample_auth, of "asc ''12345''"] b
      provider_failure_replies [OF m(1) m(2), where st = st_2fa and ev = env_bad_password
        and l = sample_lib
        and e = "Exn PasswordHashInvalidError (asc ''The password is invalid'')"
        and a = sample_auth, of "asc ''hunter2''"] c
    by (simp add: m(3) o)
qed

text \<open>
  C7 as stated fails: two runs that differ only in the detail text of the provider's
  error post different messages to the user, each carrying its detail.
\<close>

theorem provider_detail_reaches_user:
  "outbox (snd (handle_user_input sample_lib (env_provider_error (asc ''hash 4f2a''))
                  (text_in (asc ''private'') (asc ''12345'')) st_code)) =
     [SendMessage 7 (failure_text (asc ''Error: hash 4f2a'')) None] \<and>
   outbox (snd (handle_user_input sample_lib (env_provider_error (asc ''hash 9c1d''))
                  (text_in (asc ''private'') (asc ''12345'')) st_code)) =
     [SendMessage 7 (failure_text (asc ''Error: hash 9c1d'')) None] \<and>
   outbox (snd (handle_user_input sample_lib (env_provider_error (asc ''hash 4f2a''))
                  (text_in (asc ''private'') (asc ''12345'')) st_code)) \<noteq>
   outbox (snd (handle_user_input sample_lib (env_provider_error (asc ''hash 9c1d''))
                  (text_in (asc ''private'') (asc ''12345'')) st_code))"
  by (simp add: handle_user_input_def text_in_def alice_def st_code_def init_bot_def Let_def
        input_code_def verify_code_def verify_code_except_def env_provider_error_def
        env_ok_def called_def logger_def send_message_def post_def failure_text_def asc_def)

end
